theory Spec2Isabelle
  imports Complex_Main
begin

section \<open>Python values shared by the three components\<close>

text \<open>
  Strings are \<^typ>\<open>string\<close>, read as ASCII text (addresses, severities and titles
  are ASCII in every caller). \<open>str.lower\<close> and \<open>str.upper\<close> change the 26 letters
  and leave every other character as it is.
\<close>

definition lower_char :: "char \<Rightarrow> char" where
  "lower_char c =
     (let n = (of_char c :: nat) in if 65 \<le> n \<and> n \<le> 90 then char_of (n + 32) else c)"

definition upper_char :: "char \<Rightarrow> char" where
  "upper_char c =
     (let n = (of_char c :: nat) in if 97 \<le> n \<and> n \<le> 122 then char_of (n - 32) else c)"

definition lower :: "string \<Rightarrow> string" where
  "lower s = map lower_char s"

definition upper :: "string \<Rightarrow> string" where
  "upper s = map upper_char s"

text \<open>The exceptions the modelled code can raise.\<close>

datatype error = ValueError | TypeError | OverflowError | AttributeError | OSError

text \<open>
  JSON data as Python holds it after \<open>response.json()\<close>: \<open>None\<close>, booleans, integers,
  strings, lists and dictionaries (an association list, whose keys are distinct in a
  Python \<open>dict\<close>). JSON numbers with a fraction are not modelled.
\<close>

datatype pyval =
  PNone | PBool bool | PInt int | PStr string | PList "pyval list"
  | PDict "(string \<times> pyval) list"

fun truthy :: "pyval \<Rightarrow> bool" where
  "truthy PNone = False"
| "truthy (PBool b) = b"
| "truthy (PInt n) = (n \<noteq> 0)"
| "truthy (PStr s) = (s \<noteq> [])"
| "truthy (PList xs) = (xs \<noteq> [])"
| "truthy (PDict kvs) = (kvs \<noteq> [])"

definition dict_get :: "(string \<times> 'v) list \<Rightarrow> string \<Rightarrow> 'v \<Rightarrow> 'v" where
  \<comment> \<open>\<open>d.get(key, default)\<close>\<close>
  "dict_get d k dflt = (case map_of d k of None \<Rightarrow> dflt | Some v \<Rightarrow> v)"

fun dict_set :: "string \<Rightarrow> 'v \<Rightarrow> (string \<times> 'v) list \<Rightarrow> (string \<times> 'v) list" where
  \<comment> \<open>\<open>d[key] = value\<close>: an existing key keeps its place, a new key goes last\<close>
  "dict_set k v [] = [(k, v)]"
| "dict_set k v ((k', v') # d) = (if k' = k then (k, v) # d else (k', v') # dict_set k v d)"

definition dict_del :: "string \<Rightarrow> (string \<times> 'v) list \<Rightarrow> (string \<times> 'v) list" where
  "dict_del k d = filter (\<lambda>kv. fst kv \<noteq> k) d"







text \<open>\<open>str(n)\<close> of an integer, as an f-string renders it.\<close>

function str_nat :: "int \<Rightarrow> string" where
  "str_nat n =
     (if n < 10 then [char_of (48 + n)] else str_nat (n div 10) @ [char_of (48 + n mod 10)])"
  by pat_completeness auto
termination
  by (relation "measure nat") auto

declare str_nat.simps [simp del]

definition str_int :: "int \<Rightarrow> string" where
  "str_int n = (if n < 0 then CHR ''-'' # str_nat (- n) else str_nat n)"

fun is_prefix :: "string \<Rightarrow> string \<Rightarrow> bool" where
  "is_prefix [] ys = True"
| "is_prefix (x # xs) [] = False"
| "is_prefix (x # xs) (y # ys) = (x = y \<and> is_prefix xs ys)"

fun is_substring :: "string \<Rightarrow> string \<Rightarrow> bool" where
  \<comment> \<open>\<open>xs in ys\<close> on strings\<close>
  "is_substring xs [] = (xs = [])"
| "is_substring xs (y # ys) = (is_prefix xs (y # ys) \<or> is_substring xs ys)"

definition startswith :: "string \<Rightarrow> string \<Rightarrow> bool" where
  "startswith s p = is_prefix p s"

subsection \<open>Binary64 floating point\<close>

text \<open>
  A Python \<open>float\<close> is an IEEE-754 binary64 value. A finite one is modelled by the
  rational number it denotes; \<open>rnd\<close> is the rounding every arithmetic operation
  applies to its exact result: to nearest with 53 significant bits, ties to the even
  significand, with the subnormal spacing \<open>2^-1074\<close> below \<open>2^-1022\<close>. A rounded
  magnitude of \<open>2^1024\<close> or more is an overflow to infinity. \<open>Finite c\<close> stands for
  a float when \<open>c\<close> is representable, that is when \<open>rnd c = c\<close>.
\<close>

datatype pyfloat = Finite rat | PosInf | NegInf | NaN

function ilog2 :: "int \<Rightarrow> int" where
  "ilog2 n = (if n < 2 then 0 else 1 + ilog2 (n div 2))"
  by pat_completeness auto
termination
  by (relation "measure nat") auto

declare ilog2.simps [simp del]

definition pow2 :: "int \<Rightarrow> rat" where
  "pow2 e = (if 0 \<le> e then 2 ^ nat e else 1 / 2 ^ nat (- e))"

definition float_exponent :: "rat \<Rightarrow> int" where
  \<comment> \<open>for \<open>x > 0\<close>: the \<open>e\<close> with \<open>2^e \<le> x < 2^(e+1)\<close>\<close>
  "float_exponent x =
     (let (p, q) = quotient_of x;
          d = ilog2 p - ilog2 q
      in if pow2 d \<le> x then d else d - 1)"

definition round_half_even :: "rat \<Rightarrow> int" where
  "round_half_even y =
     (let f = \<lfloor>y\<rfloor>; r = y - of_int f
      in if r < 1 / 2 then f else if 1 / 2 < r then f + 1
         else if even f then f else f + 1)"

definition rnd :: "rat \<Rightarrow> rat" where
  "rnd x =
     (if x = 0 then 0
      else let a = \<bar>x\<bar>;
               e = max (float_exponent a) (- 1022);
               u = pow2 (e - 52)
           in sgn x * of_int (round_half_even (a / u)) * u)"

definition fadd :: "rat \<Rightarrow> rat \<Rightarrow> rat" where
  "fadd x y = rnd (x + y)"

definition fdiv :: "rat \<Rightarrow> rat \<Rightarrow> rat" where
  "fdiv x y = rnd (x / y)"

definition fmul_int :: "int \<Rightarrow> rat \<Rightarrow> rat" where
  \<comment> \<open>\<open>int * float\<close>: the integer is converted to a float, then multiplied\<close>
  "fmul_int n w = rnd (rnd (of_int n) * w)"

definition trunc :: "rat \<Rightarrow> int" where
  \<comment> \<open>\<open>int(x)\<close> of a finite float: towards zero\<close>
  "trunc x = (if 0 \<le> x then \<lfloor>x\<rfloor> else \<lceil>x\<rceil>)"

definition mul_int_float :: "int \<Rightarrow> pyfloat \<Rightarrow> pyfloat" where
  \<comment> \<open>\<open>n * x\<close> for an integer \<open>n\<close> below \<open>2^53\<close> in magnitude and any float \<open>x\<close>\<close>
  "mul_int_float n x =
     (case x of
        Finite c \<Rightarrow>
          (let r = rnd (of_int n * c)
           in if pow2 1024 \<le> r then PosInf
              else if r \<le> - pow2 1024 then NegInf else Finite r)
      | PosInf \<Rightarrow> (if n = 0 then NaN else if 0 < n then PosInf else NegInf)
      | NegInf \<Rightarrow> (if n = 0 then NaN else if 0 < n then NegInf else PosInf)
      | NaN \<Rightarrow> NaN)"

definition int_of_float :: "pyfloat \<Rightarrow> error + int" where
  \<comment> \<open>\<open>int(x)\<close>: OverflowError on an infinity, ValueError on NaN\<close>
  "int_of_float x =
     (case x of
        Finite r \<Rightarrow> Inr (trunc r)
      | PosInf \<Rightarrow> Inl OverflowError
      | NegInf \<Rightarrow> Inl OverflowError
      | NaN \<Rightarrow> Inl ValueError)"

section \<open>Policy engine: data model\<close>

datatype PolicySeverity = INFO | LOW | MEDIUM | HIGH | CRITICAL

fun severity_value :: "PolicySeverity \<Rightarrow> string" where
  "severity_value INFO = ''info''"
| "severity_value LOW = ''low''"
| "severity_value MEDIUM = ''medium''"
| "severity_value HIGH = ''high''"
| "severity_value CRITICAL = ''critical''"

datatype PolicyType =
  TRANSACTION_VALUE | BLOCKED_ADDRESS | GAS_LIMIT | FUNCTION_CALL
  | CONTRACT_INTERACTION | CUSTOM

text \<open>
  Values found in a violation's \<open>details\<close> dictionary. The \<open>timestamp\<close> fields of the
  dataclasses (\<open>datetime.now\<close>) are left out: no modelled function reads them.
\<close>

datatype detail = DInt int | DStr string | DNone

record PolicyViolation =
  policy_name :: string
  v_policy_type :: PolicyType
  v_severity :: PolicySeverity
  message :: string
  details :: "(string \<times> detail) list"

record ComplianceResult =
  passed :: bool
  violations :: "PolicyViolation list"
  policies_checked :: nat

text \<open>
  A policy's \<open>config\<close> is a dictionary. Its values are integers (\<open>max_value\<close>,
  \<open>max_gas\<close>) or lists of strings (\<open>addresses\<close>, \<open>contracts\<close>), the persisted
  configuration format; a value of the other kind where one is expected raises
  TypeError.
\<close>

datatype cfgval = CInt int | CStrs "string list"

record CompliancePolicy =
  name :: string
  policy_type :: PolicyType
  severity :: PolicySeverity
  description :: string
  enabled :: bool
  config :: "(string \<times> cfgval) list"

text \<open>
  The engine: \<open>_policies\<close>, a dictionary in insertion order, and \<open>_blocked_addresses\<close>,
  the cache. A method that mutates the engine returns the engine it leaves behind and
  the exception it raised, if any. A policy object is registered under one name, so
  that the in-place change \<open>add_blocked_address\<close> makes to its \<open>config\<close> is a change
  of that one entry of the registry.
\<close>

record PolicyEngine =
  policies :: "(string \<times> CompliancePolicy) list"
  blocked_addresses :: "string set"

definition add_policy :: "CompliancePolicy \<Rightarrow> PolicyEngine \<Rightarrow> PolicyEngine \<times> error option" where
  "add_policy policy e =
     (let e1 = e\<lparr>policies := dict_set (name policy) policy (policies e)\<rparr>
      in if policy_type policy = BLOCKED_ADDRESS then
           (case dict_get (config policy) ''addresses'' (CStrs []) of
              CStrs addresses \<Rightarrow>
                (e1\<lparr>blocked_addresses := blocked_addresses e1 \<union> set (map lower addresses)\<rparr>,
                 None)
            | CInt n \<Rightarrow> (e1, Some TypeError))
         else (e1, None))"

definition remove_policy :: "string \<Rightarrow> PolicyEngine \<Rightarrow> PolicyEngine" where
  "remove_policy pname e =
     (if pname \<in> fst ` set (policies e)
      then e\<lparr>policies := dict_del pname (policies e)\<rparr> else e)"

definition add_blocked_address :: "string \<Rightarrow> PolicyEngine \<Rightarrow> PolicyEngine \<times> error option" where
  "add_blocked_address address e =
     (let e1 = e\<lparr>blocked_addresses := insert (lower address) (blocked_addresses e)\<rparr>
      in case map_of (policies e1) ''blocked_addresses'' of
           None \<Rightarrow> (e1, None)
         | Some policy \<Rightarrow>
             (case dict_get (config policy) ''addresses'' (CStrs []) of
                CStrs addresses \<Rightarrow>
                  (if address \<notin> set addresses then
                     (e1\<lparr>policies :=
                           dict_set ''blocked_addresses''
                             (policy\<lparr>config :=
                                dict_set ''addresses'' (CStrs (addresses @ [address]))
                                  (config policy)\<rparr>)
                             (policies e1)\<rparr>,
                      None)
                   else (e1, None))
              | CInt n \<Rightarrow> (e1, Some TypeError)))"

definition remove_blocked_address :: "string \<Rightarrow> PolicyEngine \<Rightarrow> PolicyEngine" where
  "remove_blocked_address address e =
     e\<lparr>blocked_addresses := blocked_addresses e - {lower address}\<rparr>"

definition default_policies :: "CompliancePolicy list" where
  "default_policies =
     [\<lparr>name = ''max_transaction_value'', policy_type = TRANSACTION_VALUE, severity = HIGH,
        description = ''Flag transactions exceeding maximum allowed value'', enabled = True,
        config = [(''max_value'', CInt 1000000000000)]\<rparr>,
      \<lparr>name = ''high_gas_warning'', policy_type = GAS_LIMIT, severity = MEDIUM,
        description = ''Flag transactions with unusually high gas usage'', enabled = True,
        config = [(''max_gas'', CInt 100000)]\<rparr>,
      \<lparr>name = ''blocked_addresses'', policy_type = BLOCKED_ADDRESS, severity = CRITICAL,
        description = ''Block transactions involving sanctioned addresses'', enabled = True,
        config = [(''addresses'', CStrs [])]\<rparr>,
      \<lparr>name = ''suspicious_contracts'', policy_type = CONTRACT_INTERACTION, severity = HIGH,
        description = ''Flag interactions with known malicious contracts'', enabled = True,
        config = [(''contracts'', CStrs [])]\<rparr>]"

definition new_engine :: PolicyEngine where
  \<comment> \<open>\<open>PolicyEngine()\<close>: empty registry and cache, then \<open>_load_default_policies\<close>\<close>
  "new_engine =
     foldl (\<lambda>e policy. fst (add_policy policy e))
       \<lparr>policies = [], blocked_addresses = {}\<rparr> default_policies"

text \<open>
  \<open>_check_policy\<close>. A missing \<open>max_value\<close> or \<open>max_gas\<close> defaults to infinity, which no
  integer exceeds. The receiver is optional; \<open>str(None)\<close> is \<open>None\<close>.
\<close>

definition violation_of ::
  "CompliancePolicy \<Rightarrow> string \<Rightarrow> (string \<times> detail) list \<Rightarrow> PolicyViolation" where
  "violation_of policy msg det =
     \<lparr>policy_name = name policy, v_policy_type = policy_type policy,
      v_severity = severity policy, message = msg, details = det\<rparr>"

fun check_contracts ::
  "CompliancePolicy \<Rightarrow> pyval \<Rightarrow> string list \<Rightarrow> error + PolicyViolation option" where
  "check_contracts policy func [] = Inr None"
| "check_contracts policy func (contract # rest) =
     (case func of
        PStr f \<Rightarrow>
          if is_substring (lower contract) (lower f)
          then Inr (Some (violation_of policy
                  (''Interaction with suspicious contract: '' @ contract)
                  [(''contract'', DStr contract), (''function'', DStr f)]))
          else check_contracts policy func rest
      | _ \<Rightarrow> Inl AttributeError)"

definition check_policy ::
  "PolicyEngine \<Rightarrow> CompliancePolicy \<Rightarrow> string \<Rightarrow> string option \<Rightarrow> int \<Rightarrow> int
   \<Rightarrow> (string \<times> pyval) list option \<Rightarrow> error + PolicyViolation option"
where
  "check_policy e policy sender receiver val gas_used payload =
     (if policy_type policy = TRANSACTION_VALUE then
        (case map_of (config policy) ''max_value'' of
           None \<Rightarrow> Inr None
         | Some (CInt max_value) \<Rightarrow>
             if val > max_value
             then Inr (Some (violation_of policy
                     (''Transaction value '' @ str_int val @ '' exceeds maximum ''
                      @ str_int max_value)
                     [(''value'', DInt val), (''max_value'', DInt max_value)]))
             else Inr None
         | Some (CStrs xs) \<Rightarrow> Inl TypeError)
      else if policy_type policy = BLOCKED_ADDRESS then
        (let sender_lower = (if sender \<noteq> [] then lower sender else []);
             receiver_lower =
               (case receiver of
                  None \<Rightarrow> []
                | Some r \<Rightarrow> if r \<noteq> [] then lower r else [])
         in if sender_lower \<in> blocked_addresses e
            then Inr (Some (violation_of policy (''Sender '' @ sender @ '' is blocked'')
                    [(''blocked_address'', DStr sender), (''role'', DStr ''sender'')]))
            else if receiver_lower \<in> blocked_addresses e
            then Inr (Some (violation_of policy
                    (''Receiver '' @ (case receiver of None \<Rightarrow> ''None'' | Some r \<Rightarrow> r)
                     @ '' is blocked'')
                    [(''blocked_address'', (case receiver of None \<Rightarrow> DNone | Some r \<Rightarrow> DStr r)),
                     (''role'', DStr ''receiver'')]))
            else Inr None)
      else if policy_type policy = GAS_LIMIT then
        (case map_of (config policy) ''max_gas'' of
           None \<Rightarrow> Inr None
         | Some (CInt max_gas) \<Rightarrow>
             if gas_used > max_gas
             then Inr (Some (violation_of policy
                     (''Gas usage '' @ str_int gas_used @ '' exceeds threshold ''
                      @ str_int max_gas)
                     [(''gas_used'', DInt gas_used), (''max_gas'', DInt max_gas)]))
             else Inr None
         | Some (CStrs xs) \<Rightarrow> Inl TypeError)
      else if policy_type policy = CONTRACT_INTERACTION then
        (case payload of
           None \<Rightarrow> Inr None
         | Some p \<Rightarrow>
             if p \<noteq> [] then
               (case dict_get (config policy) ''contracts'' (CStrs []) of
                  CStrs blocked_contracts \<Rightarrow>
                    check_contracts policy (dict_get p ''function'' (PStr [])) blocked_contracts
                | CInt n \<Rightarrow> Inl TypeError)
             else Inr None)
      else Inr None)"

text \<open>
  The loop of \<open>check_transaction\<close> over \<open>self._policies.values()\<close>, with its two
  accumulators. An exception of \<open>_check_policy\<close> leaves the method.
\<close>

fun check_loop ::
  "PolicyEngine \<Rightarrow> CompliancePolicy list \<Rightarrow> string \<Rightarrow> string option \<Rightarrow> int \<Rightarrow> int
   \<Rightarrow> (string \<times> pyval) list option \<Rightarrow> PolicyViolation list \<Rightarrow> nat
   \<Rightarrow> error + (PolicyViolation list \<times> nat)"
where
  "check_loop e [] sender receiver val gas_used payload vs checked = Inr (vs, checked)"
| "check_loop e (policy # rest) sender receiver val gas_used payload vs checked =
     (if \<not> enabled policy then check_loop e rest sender receiver val gas_used payload vs checked
      else case check_policy e policy sender receiver val gas_used payload of
             Inl err \<Rightarrow> Inl err
           | Inr None \<Rightarrow>
               check_loop e rest sender receiver val gas_used payload vs (checked + 1)
           | Inr (Some violation) \<Rightarrow>
               check_loop e rest sender receiver val gas_used payload (vs @ [violation])
                 (checked + 1))"

definition check_transaction ::
  "PolicyEngine \<Rightarrow> string \<Rightarrow> string option \<Rightarrow> int \<Rightarrow> int \<Rightarrow> (string \<times> pyval) list option
   \<Rightarrow> error + ComplianceResult"
where
  "check_transaction e sender receiver val gas_used payload =
     (case check_loop e (map snd (policies e)) sender receiver val gas_used payload [] 0 of
        Inl err \<Rightarrow> Inl err
      | Inr (vs, checked) \<Rightarrow>
          Inr \<lparr>passed = (length vs = 0), violations = vs, policies_checked = checked\<rparr>)"

text \<open>
  The union of the lower-cased configured address lists of the registered
  blocked-address policies: what the cache is to be compared with.
\<close>

definition configured_addresses :: "CompliancePolicy \<Rightarrow> string list" where
  "configured_addresses policy =
     (case map_of (config policy) ''addresses'' of Some (CStrs xs) \<Rightarrow> xs | _ \<Rightarrow> [])"

definition configured_blocked :: "PolicyEngine \<Rightarrow> string set" where
  "configured_blocked e =
     (\<Union>policy \<in> snd ` set (policies e).
        if policy_type policy = BLOCKED_ADDRESS
        then set (map lower (configured_addresses policy)) else {})"

section \<open>Risk scorer\<close>

text \<open>
  Modelled from the spec: \<open>app/ai/vulnerability.py\<close> is not among the sources. A
  vulnerability carries a severity (an enum whose \<open>.value\<close> is the string looked up in
  \<open>SEVERITY_SCORES\<close>) and a title; a report carries the list of vulnerabilities and the
  four counts by severity that \<open>_score_vulnerabilities\<close> reads as attributes. A report
  object is truthy whatever it holds, as the two result dataclasses under \<open>src/\<close> are
  (\<open>ComplianceResult\<close>, \<open>AnomalyReport\<close>: neither defines \<open>__bool__\<close> or
  \<open>__len__\<close>), so an argument is present exactly when it is not \<open>None\<close>.
\<close>

record Vulnerability =
  vuln_severity_value :: string
  vuln_title :: string

text \<open>
  Modelled from the spec: the report class of \<open>app/ai/vulnerability.py\<close>, with the
  attributes the scorer reads; the counts are natural numbers.
\<close>

record VulnerabilityReport =
  vulnerabilities :: "Vulnerability list"
  critical_count :: nat
  high_count :: nat
  medium_count :: nat
  low_count :: nat

record AnomalyFinding =
  category :: string
  f_severity :: string
  f_title :: string
  f_description :: string
  confidence :: pyfloat
  evidence :: "string list"
  f_recommendations :: "string list"

record AnomalyReport =
  analysis_type :: string
  target :: string
  findings :: "AnomalyFinding list"
  summary :: string
  risk_assessment :: string

datatype RiskLevel = SAFE | RISK_LOW | RISK_MEDIUM | RISK_HIGH | RISK_CRITICAL

record RiskScore =
  score :: int
  level :: RiskLevel
  breakdown :: "string \<rightharpoonup> int"
  factors :: "string list"
  recommendations :: "string list"

definition WEIGHTS :: "string \<rightharpoonup> rat" where
  \<comment> \<open>the float literals \<open>0.35\<close>, \<open>0.40\<close>, \<open>0.25\<close>\<close>
  "WEIGHTS =
     [''compliance'' \<mapsto> rnd (35 / 100), ''vulnerability'' \<mapsto> rnd (40 / 100),
      ''anomaly'' \<mapsto> rnd (25 / 100)]"

definition weight :: "string \<Rightarrow> rat" where
  \<comment> \<open>\<open>self.WEIGHTS[key]\<close>, for one of the three keys\<close>
  "weight k = the (WEIGHTS k)"

definition SEVERITY_SCORES :: "string \<rightharpoonup> int" where
  "SEVERITY_SCORES =
     [''info'' \<mapsto> 5, ''low'' \<mapsto> 15, ''medium'' \<mapsto> 35, ''high'' \<mapsto> 65,
      ''critical'' \<mapsto> 95]"

definition severity_score :: "string \<Rightarrow> int" where
  \<comment> \<open>\<open>SEVERITY_SCORES.get(key, 0)\<close>\<close>
  "severity_score k = (case SEVERITY_SCORES k of None \<Rightarrow> 0 | Some n \<Rightarrow> n)"

definition score_compliance :: "ComplianceResult \<Rightarrow> int" where
  "score_compliance result =
     (if violations result = [] then 0
      else let max_severity =
                 foldl (\<lambda>m violation. max m (severity_score (severity_value (v_severity violation))))
                   0 (violations result);
               violation_count_bonus = min (int (length (violations result)) * 5) 25
           in min 100 (max_severity + violation_count_bonus))"

definition score_vulnerabilities :: "VulnerabilityReport \<Rightarrow> int" where
  "score_vulnerabilities report =
     (if vulnerabilities report = [] then 0
      else let max_severity =
                 foldl (\<lambda>m vuln. max m (severity_score (vuln_severity_value vuln)))
                   0 (vulnerabilities report);
               count_bonus =
                 int (critical_count report) * 15 + int (high_count report) * 10
                 + int (medium_count report) * 5 + int (low_count report) * 2
           in min 100 (max_severity + min count_bonus 30))"

text \<open>
  The loop of \<open>_score_anomalies\<close>: \<open>int(severity_score * finding.confidence)\<close> raises
  when the product is an infinity or NaN, and the exception leaves the scorer.
\<close>

fun anomaly_max_severity :: "int \<Rightarrow> AnomalyFinding list \<Rightarrow> error + int" where
  "anomaly_max_severity max_severity [] = Inr max_severity"
| "anomaly_max_severity max_severity (finding # rest) =
     (case int_of_float (mul_int_float (severity_score (f_severity finding)) (confidence finding)) of
        Inl e \<Rightarrow> Inl e
      | Inr weighted_score \<Rightarrow> anomaly_max_severity (max max_severity weighted_score) rest)"

definition score_anomalies :: "AnomalyReport \<Rightarrow> error + int" where
  "score_anomalies report =
     (if findings report = [] then Inr 0
      else case anomaly_max_severity 0 (findings report) of
             Inl e \<Rightarrow> Inl e
           | Inr max_severity \<Rightarrow>
               (let count_bonus = min (int (length (findings report)) * 5) 20
                in Inr (min 100 (max_severity + count_bonus))))"

definition score_to_level :: "int \<Rightarrow> RiskLevel" where
  "score_to_level s =
     (if s < 10 then SAFE
      else if s < 30 then RISK_LOW
      else if s < 55 then RISK_MEDIUM
      else if s < 80 then RISK_HIGH
      else RISK_CRITICAL)"

text \<open>\<open>list(dict.fromkeys(xs))\<close>: the first occurrence of each element, in order.\<close>

fun dedup_first :: "string list \<Rightarrow> string list \<Rightarrow> string list" where
  "dedup_first seen [] = []"
| "dedup_first seen (x # xs) =
     (if x \<in> set seen then dedup_first seen xs else x # dedup_first (x # seen) xs)"

definition compliance_factors :: "ComplianceResult option \<Rightarrow> string list" where
  "compliance_factors compliance_result =
     (case compliance_result of
        None \<Rightarrow> []
      | Some c \<Rightarrow> map (\<lambda>v. ''Policy violation: '' @ message v) (violations c))"

definition vulnerability_factors :: "VulnerabilityReport option \<Rightarrow> string list" where
  "vulnerability_factors vulnerability_report =
     (case vulnerability_report of
        None \<Rightarrow> []
      | Some r \<Rightarrow> map (\<lambda>v. upper (vuln_severity_value v) @ '': '' @ vuln_title v) (vulnerabilities r))"

definition anomaly_factors :: "AnomalyReport option \<Rightarrow> string list" where
  "anomaly_factors anomaly_report =
     (case anomaly_report of
        None \<Rightarrow> []
      | Some r \<Rightarrow> map (\<lambda>f. upper (f_severity f) @ '': '' @ f_title f) (findings r))"

definition collect_recommendations ::
  "ComplianceResult option \<Rightarrow> VulnerabilityReport option \<Rightarrow> AnomalyReport option \<Rightarrow> string list"
where
  "collect_recommendations compliance_result vulnerability_report anomaly_report =
     (case compliance_result of
        None \<Rightarrow> []
      | Some c \<Rightarrow>
          (if violations c \<noteq> [] then [''Review and address policy violations''] else []))
     @ (case vulnerability_report of
          None \<Rightarrow> []
        | Some r \<Rightarrow>
            (if vulnerabilities r \<noteq> [] then
               (if 0 < critical_count r
                then [''Address critical vulnerabilities immediately''] else [])
               @ (if 0 < high_count r then [''Review and fix high-severity issues''] else [])
             else []))
     @ (case anomaly_report of
          None \<Rightarrow> []
        | Some r \<Rightarrow> concat (map f_recommendations (findings r)))"

text \<open>
  The weighted total: \<open>total_score\<close> and \<open>total_weight\<close> start as the integer 0 and
  accumulate floats, one category at a time, each operation rounded.
\<close>

definition weighted_total :: "int option \<Rightarrow> int option \<Rightarrow> int option \<Rightarrow> rat \<times> rat" where
  "weighted_total compliance vuln anomaly =
     (let (total_score, total_weight) = (0, 0);
          (total_score, total_weight) =
            (case compliance of
               None \<Rightarrow> (total_score, total_weight)
             | Some s \<Rightarrow> (fadd total_score (fmul_int s (weight ''compliance'')),
                          fadd total_weight (weight ''compliance'')));
          (total_score, total_weight) =
            (case vuln of
               None \<Rightarrow> (total_score, total_weight)
             | Some s \<Rightarrow> (fadd total_score (fmul_int s (weight ''vulnerability'')),
                          fadd total_weight (weight ''vulnerability'')));
          (total_score, total_weight) =
            (case anomaly of
               None \<Rightarrow> (total_score, total_weight)
             | Some s \<Rightarrow> (fadd total_score (fmul_int s (weight ''anomaly'')),
                          fadd total_weight (weight ''anomaly'')))
      in (total_score, total_weight))"

definition final_score :: "int option \<Rightarrow> int option \<Rightarrow> int option \<Rightarrow> int" where
  "final_score compliance vuln anomaly =
     (let (total_score, total_weight) = weighted_total compliance vuln anomaly;
          final = (if 0 < total_weight then trunc (fdiv total_score total_weight) else 0)
      in max 0 (min 100 final))"

text \<open>
  \<open>calculate_risk_score\<close>. Of the three sub-scores only the anomaly one can raise, and
  nothing is observable of a call that raises but its exception, so the model looks at
  the anomaly sub-score first and builds the result in one step.
\<close>

definition calculate_risk_score ::
  "ComplianceResult option \<Rightarrow> VulnerabilityReport option \<Rightarrow> AnomalyReport option
   \<Rightarrow> error + RiskScore"
where
  "calculate_risk_score compliance_result vulnerability_report anomaly_report =
     (let compliance_score = map_option score_compliance compliance_result;
          vuln_score = map_option score_vulnerabilities vulnerability_report
      in case (case anomaly_report of
                 None \<Rightarrow> Inr None
               | Some r \<Rightarrow> map_sum id Some (score_anomalies r)) of
           Inl e \<Rightarrow> Inl e
         | Inr anomaly_score \<Rightarrow>
             (let breakdown =
                    (\<lambda>k. if k = ''compliance'' then compliance_score
                         else if k = ''vulnerability'' then vuln_score
                         else if k = ''anomaly'' then anomaly_score
                         else None);
                  factors = compliance_factors compliance_result
                            @ vulnerability_factors vulnerability_report
                            @ anomaly_factors anomaly_report;
                  recommendations =
                    collect_recommendations compliance_result vulnerability_report anomaly_report;
                  final_score = final_score compliance_score vuln_score anomaly_score
              in Inr \<lparr>score = final_score,
                      level = score_to_level final_score,
                      breakdown = breakdown,
                      factors = take 10 factors,
                      recommendations = take 5 (dedup_first [] recommendations)\<rparr>))"

text \<open>
  The weighted average as the specification words it, in exact arithmetic: the sum of
  weight times sub-score over the categories present, divided by the sum of their
  weights (0.35, 0.40, 0.25), and 0 when no category is present. \<open>in_range\<close> says
  that a sub-score, when present, lies between 0 and 100. \<open>delta\<close> bounds the error of
  one rounding of a value of magnitude at most 128.
\<close>

definition exact_total :: "int option \<Rightarrow> int option \<Rightarrow> int option \<Rightarrow> rat \<times> rat" where
  "exact_total c v a =
     ((case c of None \<Rightarrow> 0 | Some s \<Rightarrow> of_int s * (35 / 100))
      + (case v of None \<Rightarrow> 0 | Some s \<Rightarrow> of_int s * (40 / 100))
      + (case a of None \<Rightarrow> 0 | Some s \<Rightarrow> of_int s * (25 / 100)),
      (case c of None \<Rightarrow> 0 | Some s \<Rightarrow> 35 / 100)
      + (case v of None \<Rightarrow> 0 | Some s \<Rightarrow> 40 / 100)
      + (case a of None \<Rightarrow> 0 | Some s \<Rightarrow> 25 / 100))"

definition weighted_average :: "int option \<Rightarrow> int option \<Rightarrow> int option \<Rightarrow> rat" where
  "weighted_average c v a =
     (let (total, weights) = exact_total c v a in if 0 < weights then total / weights else 0)"

definition in_range :: "int option \<Rightarrow> bool" where
  "in_range so = (case so of None \<Rightarrow> True | Some s \<Rightarrow> 0 \<le> s \<and> s \<le> 100)"

definition delta :: rat where
  "delta = pow2 (- 46)"

section \<open>Transaction monitor\<close>

text \<open>
  An event's timestamp is either the microsecond count of the record, converted by
  \<open>datetime.fromtimestamp\<close>, or \<open>datetime.now()\<close>. Which counts the platform refuses to
  convert, and with which exception, is a parameter \<open>ts_raises\<close> of the model. The
  dataclass does not check its field types: a field holds whatever the record held.
\<close>

datatype tstamp = At int | Now

record TransactionEvent =
  ev_hash :: pyval
  ev_version :: int
  ev_sender :: pyval
  ev_type :: pyval
  ev_timestamp :: tstamp
  ev_success :: pyval
  ev_gas_used :: int
  ev_payload :: pyval
  ev_changes :: pyval
  ev_raw :: pyval

text \<open>
  The monitor's state: \<open>_running\<close>, \<open>_last_version\<close>, the ring buffer
  \<open>_recent_transactions\<close> (a deque of capacity 100) and \<open>_monitored_addresses\<close>. The
  callbacks are observers: what the model keeps of them is the list of events handed
  to them.
\<close>

record TransactionMonitor =
  running :: bool
  last_version :: "int option"
  recent_transactions :: "TransactionEvent list"
  monitored_addresses :: "string set"

definition add_monitored_address :: "string \<Rightarrow> TransactionMonitor \<Rightarrow> TransactionMonitor" where
  "add_monitored_address address m =
     (let address = (if \<not> startswith address ''0x'' then ''0x'' @ address else address)
      in m\<lparr>monitored_addresses := insert (lower address) (monitored_addresses m)\<rparr>)"




definition should_process :: "TransactionMonitor \<Rightarrow> TransactionEvent \<Rightarrow> error + bool" where
  "should_process m event =
     (if monitored_addresses m = {} then Inr True
      else if \<not> truthy (ev_sender event) then Inr ([] \<in> monitored_addresses m)
      else case ev_sender event of
             PStr s \<Rightarrow> Inr (lower s \<in> monitored_addresses m)
           | _ \<Rightarrow> Inl AttributeError)"












section \<open>Concrete inputs\<close>


definition monitor0 :: TransactionMonitor where
  "monitor0 =
     \<lparr>running = True, last_version = Some 5, recent_transactions = [],
      monitored_addresses = {}\<rparr>"






definition event0 :: TransactionEvent where
  "event0 =
     \<lparr>ev_hash = PStr ''0xh'', ev_version = 6, ev_sender = PStr ''0xAB'',
      ev_type = PStr ''user_transaction'', ev_timestamp = At 0, ev_success = PBool True,
      ev_gas_used = 3, ev_payload = PDict [], ev_changes = PList [], ev_raw = PDict []\<rparr>"

definition monitor1 :: TransactionMonitor where
  "monitor1 =
     \<lparr>running = True, last_version = Some 5, recent_transactions = [],
      monitored_addresses = {''0xab''}\<rparr>"

definition engine_dead :: PolicyEngine where
  \<comment> \<open>\<open>PolicyEngine()\<close>, then \<open>add_blocked_address("0xDEAD")\<close>\<close>
  "engine_dead = fst (add_blocked_address ''0xDEAD'' new_engine)"

definition engine_removed :: PolicyEngine where
  \<comment> \<open>then \<open>remove_blocked_address("0xDEAD")\<close>\<close>
  "engine_removed = remove_blocked_address ''0xDEAD'' engine_dead"

definition engine_unregistered :: PolicyEngine where
  \<comment> \<open>or else \<open>remove_policy("blocked_addresses")\<close>\<close>
  "engine_unregistered = remove_policy ''blocked_addresses'' engine_dead"

definition vuln :: "string \<Rightarrow> string \<Rightarrow> Vulnerability" where
  "vuln sev title = \<lparr>vuln_severity_value = sev, vuln_title = title\<rparr>"

definition report_high_3low :: VulnerabilityReport where
  \<comment> \<open>one high and three low vulnerabilities\<close>
  "report_high_3low =
     \<lparr>vulnerabilities =
        [vuln ''high'' ''Missing signer check'', vuln ''low'' ''Unused variable'',
         vuln ''low'' ''Magic number'', vuln ''low'' ''Missing event''],
      critical_count = 0, high_count = 1, medium_count = 0, low_count = 3\<rparr>"

definition report_critical_2low :: VulnerabilityReport where
  \<comment> \<open>one critical and two low vulnerabilities\<close>
  "report_critical_2low =
     \<lparr>vulnerabilities =
        [vuln ''critical'' ''Unchecked withdrawal'', vuln ''low'' ''Unused variable'',
         vuln ''low'' ''Magic number''],
      critical_count = 1, high_count = 0, medium_count = 0, low_count = 2\<rparr>"

definition finding :: "string \<Rightarrow> string \<Rightarrow> pyfloat \<Rightarrow> AnomalyFinding" where
  "finding sev title conf =
     \<lparr>category = ''pattern'', f_severity = sev, f_title = title, f_description = [],
      confidence = conf, evidence = [], f_recommendations = [''Review the transaction'']\<rparr>"

definition anomalies_twice :: AnomalyReport where
  \<comment> \<open>the same finding reported twice, confidence 0.5\<close>
  "anomalies_twice =
     \<lparr>analysis_type = ''transaction'', target = ''0x1'',
      findings = [finding ''high'' ''Large transfer'' (Finite (1 / 2)),
                  finding ''high'' ''Large transfer'' (Finite (1 / 2))],
      summary = [], risk_assessment = []\<rparr>"

definition blocked_violation :: "string \<Rightarrow> PolicyViolation" where
  "blocked_violation pname =
     \<lparr>policy_name = pname, v_policy_type = BLOCKED_ADDRESS, v_severity = CRITICAL,
      message = ''Sender 0xdead is blocked'',
      details = [(''blocked_address'', DStr ''0xdead''), (''role'', DStr ''sender'')]\<rparr>"

definition compliance_two :: ComplianceResult where
  \<comment> \<open>two blocked-address policies fired on the same sender\<close>
  "compliance_two =
     \<lparr>passed = False,
      violations = [blocked_violation ''blocked_addresses'', blocked_violation ''sanctions''],
      policies_checked = 5\<rparr>"

definition compliance_clean :: ComplianceResult where
  "compliance_clean = \<lparr>passed = True, violations = [], policies_checked = 4\<rparr>"

section \<open>Transaction monitor: delivered versions\<close>












section \<open>Transaction monitor: malformed records\<close>








section \<open>Transaction monitor: the address filter\<close>

lemma lower_0xAB: "lower ''0xAB'' = ''0xab''"
  by code_simp

lemma lower_0xab: "lower ''0xab'' = ''0xab''"
  by code_simp

lemma lower_0xAB1: "lower ''0xAB1'' = ''0xab1''"
  by code_simp

lemma lower_0xCD: "lower ''0xCD'' = ''0xcd''"
  by code_simp

lemma lower_Nil: "lower [] = []"
  by (simp add: lower_def)

text \<open>
  C9. With no monitored address every event is accepted. With some, an event whose
  sender is a string is accepted exactly when the lower-cased sender is in the set.
  \<open>add_monitored_address\<close> stores the address lower-cased, with \<open>0x\<close> put in front
  when it does not start with it. So after adding \<open>0xAB\<close> to an empty set the senders
  \<open>0xab\<close> and \<open>0xAB\<close> pass, and \<open>0xAB1\<close> and \<open>0xCD\<close> do not.
\<close>

theorem should_process_allow_list:
  "(monitored_addresses m = {} \<longrightarrow> should_process m event = Inr True)
   \<and> (monitored_addresses m \<noteq> {} \<longrightarrow> ev_sender event = PStr s \<longrightarrow>
        should_process m event = Inr (lower s \<in> monitored_addresses m))
   \<and> monitored_addresses (add_monitored_address a m) =
        insert (lower (if startswith a ''0x'' then a else ''0x'' @ a)) (monitored_addresses m)
   \<and> (monitored_addresses m = {} \<longrightarrow>
        should_process (add_monitored_address ''0xAB'' m) (event\<lparr>ev_sender := PStr ''0xab''\<rparr>)
          = Inr True
      \<and> should_process (add_monitored_address ''0xAB'' m) (event\<lparr>ev_sender := PStr ''0xAB''\<rparr>)
          = Inr True
      \<and> should_process (add_monitored_address ''0xAB'' m) (event\<lparr>ev_sender := PStr ''0xAB1''\<rparr>)
          = Inr False
      \<and> should_process (add_monitored_address ''0xAB'' m) (event\<lparr>ev_sender := PStr ''0xCD''\<rparr>)
          = Inr False)"
proof (intro conjI impI)
  assume "monitored_addresses m = {}"
  then show "should_process m event = Inr True"
    by (simp add: should_process_def)
next
  assume "monitored_addresses m \<noteq> {}" "ev_sender event = PStr s"
  then show "should_process m event = Inr (lower s \<in> monitored_addresses m)"
    by (cases "s = []") (simp_all add: should_process_def lower_Nil)
next
  show "monitored_addresses (add_monitored_address a m) =
        insert (lower (if startswith a ''0x'' then a else ''0x'' @ a)) (monitored_addresses m)"
    by (simp add: add_monitored_address_def Let_def)
next
  assume e: "monitored_addresses m = {}"
  have a: "monitored_addresses (add_monitored_address ''0xAB'' m) = {''0xab''}"
    using e by (simp add: add_monitored_address_def Let_def startswith_def lower_0xAB)
  show "should_process (add_monitored_address ''0xAB'' m) (event\<lparr>ev_sender := PStr ''0xab''\<rparr>)
      = Inr True"
    by (simp add: should_process_def a lower_0xab)
  show "should_process (add_monitored_address ''0xAB'' m) (event\<lparr>ev_sender := PStr ''0xAB''\<rparr>)
      = Inr True"
    by (simp add: should_process_def a lower_0xAB)
  show "should_process (add_monitored_address ''0xAB'' m) (event\<lparr>ev_sender := PStr ''0xAB1''\<rparr>)
      = Inr False"
    by (simp add: should_process_def a lower_0xAB1)
  show "should_process (add_monitored_address ''0xAB'' m) (event\<lparr>ev_sender := PStr ''0xCD''\<rparr>)
      = Inr False"
    by (simp add: should_process_def a lower_0xCD)
qed

theorem should_process_allow_list_witness:
  "should_process monitor0 event0 = Inr True
   \<and> should_process monitor1 event0 = Inr True
   \<and> should_process monitor1 (event0\<lparr>ev_sender := PStr ''0xCD''\<rparr>) = Inr False
   \<and> monitored_addresses (add_monitored_address ''AB'' monitor0) = {''0xab''}
   \<and> should_process (add_monitored_address ''0xAB'' monitor0) (event0\<lparr>ev_sender := PStr ''0xAB1''\<rparr>)
       = Inr False"
proof -
  have a: "should_process monitor0 event0 = Inr True"
    using should_process_allow_list [of monitor0 event0 "''0xAB''" "''AB''"]
    by (simp add: monitor0_def)
  have b: "should_process monitor1 event0 = Inr True"
    using should_process_allow_list [of monitor1 event0 "''0xAB''" "''AB''"]
    by (simp add: monitor1_def event0_def lower_0xAB)
  have c: "should_process monitor1 (event0\<lparr>ev_sender := PStr ''0xCD''\<rparr>) = Inr False"
    using should_process_allow_list
      [of monitor1 "event0\<lparr>ev_sender := PStr ''0xCD''\<rparr>" "''0xCD''" "''AB''"]
    by (simp add: monitor1_def lower_0xCD)
  have d: "monitored_addresses (add_monitored_address ''AB'' monitor0) = {''0xab''}"
    using should_process_allow_list [of monitor0 event0 "''0xAB''" "''AB''"]
    by (simp add: monitor0_def startswith_def lower_0xAB)
  have e: "should_process (add_monitored_address ''0xAB'' monitor0)
             (event0\<lparr>ev_sender := PStr ''0xAB1''\<rparr>) = Inr False"
    using should_process_allow_list [of monitor0 event0 "''0xAB''" "''AB''"]
    by (simp add: monitor0_def)
  from a b c d e show ?thesis by blast
qed

section \<open>Policy engine: the cache, the value ceiling, blocked addresses\<close>

lemma new_engine_eq:
  "new_engine = \<lparr>policies = map (\<lambda>p. (name p, p)) default_policies, blocked_addresses = {}\<rparr>"
  by (simp add: new_engine_def default_policies_def add_policy_def Let_def dict_get_def)

lemma lower_0xdead: "lower ''0xdead'' = ''0xdead''"
  by code_simp

lemma lower_0xDEAD: "lower ''0xDEAD'' = ''0xdead''"
  by code_simp

lemma lower_0x1: "lower ''0x1'' = ''0x1''"
  by code_simp

lemma engine_dead_eq:
  "engine_dead =
     \<lparr>policies =
        [(''max_transaction_value'', default_policies ! 0),
         (''high_gas_warning'', default_policies ! 1),
         (''blocked_addresses'',
            (default_policies ! 2)\<lparr>config := [(''addresses'', CStrs [''0xDEAD''])]\<rparr>),
         (''suspicious_contracts'', default_policies ! 3)],
      blocked_addresses = {''0xdead''}\<rparr>"
  by (simp add: engine_dead_def add_blocked_address_def new_engine_eq default_policies_def
      Let_def dict_get_def lower_0xDEAD)

lemma str_int_2e12: "str_int 2000000000000 = ''2000000000000''"
  by code_simp

lemma str_int_1e12: "str_int 1000000000000 = ''1000000000000''"
  by code_simp

text \<open>
  C2. The code at the failing input: on a new engine, \<open>add_blocked_address("0xDEAD")\<close>
  puts \<open>0xdead\<close> in the cache and \<open>0xDEAD\<close> in the configured list of the policy
  \<open>blocked_addresses\<close>. After \<open>remove_blocked_address("0xDEAD")\<close> the cache is empty
  while the policy still lists the address; after \<open>remove_policy("blocked_addresses")\<close>
  instead, the cache still holds the address while no blocked-address policy is
  registered. In both engines the cache differs from the union of the configured lists.
\<close>

theorem cache_differs_from_configured_lists:
  "blocked_addresses engine_removed = {}
   \<and> configured_blocked engine_removed = {''0xdead''}
   \<and> blocked_addresses engine_unregistered = {''0xdead''}
   \<and> configured_blocked engine_unregistered = {}"
  by (simp add: engine_removed_def engine_unregistered_def remove_blocked_address_def
      remove_policy_def dict_del_def configured_blocked_def configured_addresses_def
      engine_dead_eq default_policies_def lower_0xDEAD)

text \<open>
  C4. On a new engine, \<open>check_transaction\<close> with value 2,000,000,000,000, whatever the
  sender, the other arguments at their defaults, returns \<open>passed = False\<close> and exactly
  one violation, of the policy \<open>max_transaction_value\<close>, with severity high; the four
  default policies were checked. In general a transaction-value policy whose
  \<open>max_value\<close> is an integer yields a violation iff the value is greater than it.
\<close>

theorem value_ceiling_fires_iff_greater:
  "check_transaction new_engine sender None 2000000000000 0 None
     = Inr \<lparr>passed = False,
            violations =
              [\<lparr>policy_name = ''max_transaction_value'', v_policy_type = TRANSACTION_VALUE,
                v_severity = HIGH,
                message = ''Transaction value 2000000000000 exceeds maximum 1000000000000'',
                details = [(''value'', DInt 2000000000000), (''max_value'', DInt 1000000000000)]\<rparr>],
            policies_checked = 4\<rparr>
   \<and> (policy_type policy = TRANSACTION_VALUE \<longrightarrow>
        map_of (config policy) ''max_value'' = Some (CInt max_value) \<longrightarrow>
        ((\<exists>v. check_policy e policy sender receiver val gas payload = Inr (Some v))
           \<longleftrightarrow> val > max_value)
        \<and> (val \<le> max_value \<longrightarrow> check_policy e policy sender receiver val gas payload = Inr None))"
proof (intro conjI impI)
  show "check_transaction new_engine sender None 2000000000000 0 None
     = Inr \<lparr>passed = False,
            violations =
              [\<lparr>policy_name = ''max_transaction_value'', v_policy_type = TRANSACTION_VALUE,
                v_severity = HIGH,
                message = ''Transaction value 2000000000000 exceeds maximum 1000000000000'',
                details = [(''value'', DInt 2000000000000), (''max_value'', DInt 1000000000000)]\<rparr>],
            policies_checked = 4\<rparr>"
    by (simp add: check_transaction_def new_engine_eq default_policies_def check_policy_def
        violation_of_def str_int_2e12 str_int_1e12 Let_def)
next
  assume "policy_type policy = TRANSACTION_VALUE"
    "map_of (config policy) ''max_value'' = Some (CInt max_value)"
  then show "(\<exists>v. check_policy e policy sender receiver val gas payload = Inr (Some v))
           \<longleftrightarrow> val > max_value"
    by (simp add: check_policy_def)
next
  assume "policy_type policy = TRANSACTION_VALUE"
    "map_of (config policy) ''max_value'' = Some (CInt max_value)" "val \<le> max_value"
  then show "check_policy e policy sender receiver val gas payload = Inr None"
    by (simp add: check_policy_def)
qed

theorem value_ceiling_fires_iff_greater_witness:
  "(\<exists>v. check_policy new_engine (default_policies ! 0) ''0x1'' None 2000000000000 0 None
          = Inr (Some v))
   \<and> check_policy new_engine (default_policies ! 0) ''0x1'' None 1000000000000 0 None = Inr None
   \<and> map (\<lambda>v. (policy_name v, v_severity v))
        (violations (projr (check_transaction new_engine ''0x1'' None 2000000000000 0 None)))
       = [(''max_transaction_value'', HIGH)]"
proof -
  have a: "\<exists>v. check_policy new_engine (default_policies ! 0) ''0x1'' None 2000000000000 0 None
          = Inr (Some v)"
    using value_ceiling_fires_iff_greater
      [of "''0x1''" "default_policies ! 0" 1000000000000 new_engine None 2000000000000 0 None]
    by (simp add: default_policies_def)
  have b: "check_policy new_engine (default_policies ! 0) ''0x1'' None 1000000000000 0 None
      = Inr None"
    using value_ceiling_fires_iff_greater
      [of "''0x1''" "default_policies ! 0" 1000000000000 new_engine None 1000000000000 0 None]
    by (simp add: default_policies_def)
  have c: "map (\<lambda>v. (policy_name v, v_severity v))
        (violations (projr (check_transaction new_engine ''0x1'' None 2000000000000 0 None)))
       = [(''max_transaction_value'', HIGH)]"
    using value_ceiling_fires_iff_greater
      [of "''0x1''" "default_policies ! 0" 1000000000000 new_engine None 2000000000000 0 None]
    by simp
  from a b c show ?thesis by blast
qed

text \<open>
  C5. A blocked-address policy yields a violation iff the lower-cased sender or the
  lower-cased receiver is in the cache (an absent receiver is compared as the empty
  string). The sender is looked up first: when it is blocked the violation reported is
  the sender's, whatever the receiver; the receiver's is reported only when the sender
  is not blocked. Matching is case-insensitive: on a new engine, after
  \<open>add_blocked_address("0xDEAD")\<close>, a transaction from \<open>0xdead\<close> gets exactly one
  violation, of severity critical.
\<close>

theorem blocked_address_sender_first:
  "(policy_type policy = BLOCKED_ADDRESS \<longrightarrow>
      ((\<exists>v. check_policy e policy sender receiver val gas payload = Inr (Some v))
         \<longleftrightarrow> lower sender \<in> blocked_addresses e
             \<or> lower (case receiver of None \<Rightarrow> [] | Some r \<Rightarrow> r) \<in> blocked_addresses e)
    \<and> (lower sender \<in> blocked_addresses e \<longrightarrow>
         check_policy e policy sender receiver val gas payload
           = Inr (Some (violation_of policy (''Sender '' @ sender @ '' is blocked'')
                   [(''blocked_address'', DStr sender), (''role'', DStr ''sender'')])))
    \<and> (lower sender \<notin> blocked_addresses e \<longrightarrow> lower r \<in> blocked_addresses e \<longrightarrow>
         check_policy e policy sender (Some r) val gas payload
           = Inr (Some (violation_of policy (''Receiver '' @ r @ '' is blocked'')
                   [(''blocked_address'', DStr r), (''role'', DStr ''receiver'')]))))
   \<and> check_transaction (fst (add_blocked_address ''0xDEAD'' new_engine)) ''0xdead'' None 0 0 None
       = Inr \<lparr>passed = False,
              violations =
                [\<lparr>policy_name = ''blocked_addresses'', v_policy_type = BLOCKED_ADDRESS,
                  v_severity = CRITICAL, message = ''Sender 0xdead is blocked'',
                  details = [(''blocked_address'', DStr ''0xdead''), (''role'', DStr ''sender'')]\<rparr>],
              policies_checked = 4\<rparr>"
proof (intro conjI impI)
  assume "policy_type policy = BLOCKED_ADDRESS"
  then show "(\<exists>v. check_policy e policy sender receiver val gas payload = Inr (Some v))
         \<longleftrightarrow> lower sender \<in> blocked_addresses e
             \<or> lower (case receiver of None \<Rightarrow> [] | Some r \<Rightarrow> r) \<in> blocked_addresses e"
    by (cases receiver) (auto simp: check_policy_def Let_def lower_def)
next
  assume "policy_type policy = BLOCKED_ADDRESS" "lower sender \<in> blocked_addresses e"
  then show "check_policy e policy sender receiver val gas payload
           = Inr (Some (violation_of policy (''Sender '' @ sender @ '' is blocked'')
                   [(''blocked_address'', DStr sender), (''role'', DStr ''sender'')]))"
    by (auto simp: check_policy_def Let_def lower_def)
next
  assume "policy_type policy = BLOCKED_ADDRESS" "lower sender \<notin> blocked_addresses e"
    "lower r \<in> blocked_addresses e"
  then show "check_policy e policy sender (Some r) val gas payload
           = Inr (Some (violation_of policy (''Receiver '' @ r @ '' is blocked'')
                   [(''blocked_address'', DStr r), (''role'', DStr ''receiver'')]))"
    by (auto simp: check_policy_def Let_def lower_def)
next
  show "check_transaction (fst (add_blocked_address ''0xDEAD'' new_engine)) ''0xdead'' None 0 0 None
       = Inr \<lparr>passed = False,
              violations =
                [\<lparr>policy_name = ''blocked_addresses'', v_policy_type = BLOCKED_ADDRESS,
                  v_severity = CRITICAL, message = ''Sender 0xdead is blocked'',
                  details = [(''blocked_address'', DStr ''0xdead''), (''role'', DStr ''sender'')]\<rparr>],
              policies_checked = 4\<rparr>"
    unfolding engine_dead_def [symmetric]
    by (simp add: check_transaction_def engine_dead_eq default_policies_def check_policy_def
        violation_of_def Let_def lower_0xdead)
qed

theorem blocked_address_sender_first_witness:
  "check_policy engine_dead (default_policies ! 2) ''0xDEAD'' (Some ''0xdead'') 0 0 None
     = Inr (Some (violation_of (default_policies ! 2) ''Sender 0xDEAD is blocked''
             [(''blocked_address'', DStr ''0xDEAD''), (''role'', DStr ''sender'')]))
   \<and> check_policy engine_dead (default_policies ! 2) ''0x1'' (Some ''0xDEAD'') 0 0 None
     = Inr (Some (violation_of (default_policies ! 2) ''Receiver 0xDEAD is blocked''
             [(''blocked_address'', DStr ''0xDEAD''), (''role'', DStr ''receiver'')]))
   \<and> (\<exists>v. check_policy engine_dead (default_policies ! 2) ''0x1'' (Some ''0xDEAD'') 0 0 None
            = Inr (Some v))"
proof -
  have p: "policy_type (default_policies ! 2) = BLOCKED_ADDRESS"
    by (simp add: default_policies_def)
  have a: "check_policy engine_dead (default_policies ! 2) ''0xDEAD'' (Some ''0xdead'') 0 0 None
     = Inr (Some (violation_of (default_policies ! 2) ''Sender 0xDEAD is blocked''
             [(''blocked_address'', DStr ''0xDEAD''), (''role'', DStr ''sender'')]))"
    using blocked_address_sender_first
      [of "default_policies ! 2" engine_dead "''0xDEAD''" "Some ''0xdead''" 0 0 None "''0xdead''"]
      p
    by (simp add: engine_dead_eq lower_0xDEAD)
  have b: "check_policy engine_dead (default_policies ! 2) ''0x1'' (Some ''0xDEAD'') 0 0 None
     = Inr (Some (violation_of (default_policies ! 2) ''Receiver 0xDEAD is blocked''
             [(''blocked_address'', DStr ''0xDEAD''), (''role'', DStr ''receiver'')]))"
    using blocked_address_sender_first
      [of "default_policies ! 2" engine_dead "''0x1''" "Some ''0xDEAD''" 0 0 None "''0xDEAD''"]
      p
    by (simp add: engine_dead_eq lower_0xDEAD lower_0x1)
  from a b show ?thesis by simp
qed

section \<open>Binary64 rounding: the exponent and a bound\<close>

lemma pow2_powi: "pow2 e = 2 powi e"
  by (simp add: pow2_def power_int_def inverse_eq_divide power_one_over)

lemma pow2_pos: "0 < pow2 e"
  by (simp add: pow2_powi)

lemma pow2_add: "pow2 (a + b) = pow2 a * pow2 b"
  by (simp add: pow2_powi power_int_add)

lemma pow2_mono: "a \<le> b \<Longrightarrow> pow2 a \<le> pow2 b"
  by (simp add: pow2_powi power_int_increasing)

lemma pow2_1: "pow2 1 = 2"
  by (simp add: pow2_def)

lemma ilog2_nonneg: "0 \<le> ilog2 n"
  by (induction n rule: ilog2.induct) (subst ilog2.simps, simp)

lemma ilog2_bounds:
  "1 \<le> n \<Longrightarrow> pow2 (ilog2 n) \<le> of_int n \<and> of_int n < pow2 (ilog2 n + 1)"
proof (induction n rule: ilog2.induct)
  case (1 n)
  show ?case
  proof (cases "n < 2")
    case True
    with "1.prems" have "n = 1" by simp
    then show ?thesis by (subst (1 2) ilog2.simps) (simp add: pow2_def)
  next
    case False
    then have h: "1 \<le> n div 2" by simp
    from "1.IH" [OF False h] have
      lo: "pow2 (ilog2 (n div 2)) \<le> of_int (n div 2)" and
      hi: "of_int (n div 2) < pow2 (ilog2 (n div 2) + 1)" by simp_all
    have e: "ilog2 n = 1 + ilog2 (n div 2)"
      using False by (subst ilog2.simps) simp
    have p1: "pow2 (1 + ilog2 (n div 2)) = 2 * pow2 (ilog2 (n div 2))"
      by (simp add: pow2_add pow2_1)
    have p2: "pow2 (1 + ilog2 (n div 2) + 1) = 2 * pow2 (ilog2 (n div 2) + 1)"
      using pow2_add [of 1 "ilog2 (n div 2) + 1"] by (simp add: pow2_1 add.assoc)
    have "2 * (n div 2) \<le> n" by simp
    then have a: "2 * (of_int (n div 2) :: rat) \<le> of_int n"
      by (metis of_int_le_iff of_int_mult of_int_numeral)
    have "n < 2 * (n div 2 + 1)" by simp
    then have "n + 1 \<le> 2 * (n div 2 + 1)" by simp
    moreover
    obtain k where k: "pow2 (ilog2 (n div 2) + 1) = of_int k"
      using ilog2_nonneg [of "n div 2"]
      by (metis pow2_def add_nonneg_nonneg of_int_numeral of_int_power zero_le_one)
    from hi k have "n div 2 < k" by simp
    then have "n div 2 + 1 \<le> k" by simp
    ultimately have "n + 1 \<le> 2 * k" by linarith
    then have "n < 2 * k" by simp
    then have "(of_int n :: rat) < of_int (2 * k)" by (simp only: of_int_less_iff)
    then have b: "of_int n < 2 * pow2 (ilog2 (n div 2) + 1)"
      using k by simp
    have "pow2 (ilog2 n) \<le> of_int n"
      unfolding e p1 using lo a by linarith
    moreover have "of_int n < pow2 (ilog2 n + 1)"
      unfolding e p2 using b by linarith
    ultimately show ?thesis by blast
  qed
qed

lemma float_exponent_bounds:
  assumes "0 < x"
  shows "pow2 (float_exponent x) \<le> x \<and> x < pow2 (float_exponent x + 1)"
proof -
  obtain p q where pq: "quotient_of x = (p, q)" by (cases "quotient_of x") auto
  have q: "0 < q" using pq by (rule quotient_of_denom_pos)
  have x: "x = of_int p / of_int q" using pq by (rule quotient_of_div)
  have p: "0 < p" using assms q x by (simp add: zero_less_divide_iff)
  define lp where "lp = ilog2 p"
  define lq where "lq = ilog2 q"
  define d where "d = lp - lq"
  from ilog2_bounds [of p] p have bp: "pow2 lp \<le> of_int p" "of_int p < pow2 (lp + 1)"
    by (simp_all add: lp_def)
  from ilog2_bounds [of q] q have bq: "pow2 lq \<le> of_int q" "of_int q < pow2 (lq + 1)"
    by (simp_all add: lq_def)
  have qpos: "(0::rat) < of_int q" using q by simp
  have xq: "x * of_int q = of_int p" using x qpos by simp
  have lo: "pow2 (d - 1) \<le> x"
  proof -
    have "pow2 (d - 1) * of_int q \<le> pow2 (d - 1) * pow2 (lq + 1)"
      using bq(2) pow2_pos [of "d - 1"] by (simp add: mult_le_cancel_left_pos less_imp_le)
    also have "\<dots> = pow2 lp" by (simp add: pow2_add [symmetric] d_def)
    also have "\<dots> \<le> x * of_int q" using bp(1) xq by simp
    finally show ?thesis using qpos by (simp add: mult_le_cancel_right)
  qed
  have hi: "x < pow2 (d + 1)"
  proof -
    have "x * of_int q < pow2 (lp + 1)" using bp(2) xq by simp
    also have "\<dots> = pow2 (d + 1) * pow2 lq" by (simp add: pow2_add [symmetric] d_def)
    also have "\<dots> \<le> pow2 (d + 1) * of_int q"
      using bq(1) pow2_pos [of "d + 1"] by (simp add: mult_le_cancel_left_pos)
    finally show ?thesis using qpos by (simp add: mult_less_cancel_right)
  qed
  have fe: "float_exponent x = (if pow2 d \<le> x then d else d - 1)"
    by (simp add: float_exponent_def pq d_def lp_def lq_def Let_def)
  show ?thesis
  proof (cases "pow2 d \<le> x")
    case True
    then show ?thesis using hi by (simp add: fe)
  next
    case False
    then show ?thesis using lo by (simp add: fe)
  qed
qed


lemma pow2_7: "pow2 7 = 128"
  by (simp add: pow2_def)

lemma round_half_even_le: "of_int (round_half_even y) \<le> y + 1"
proof -
  have "round_half_even y \<le> \<lfloor>y\<rfloor> + 1"
    by (simp add: round_half_even_def Let_def)
  then have "(of_int (round_half_even y) :: rat) \<le> of_int (\<lfloor>y\<rfloor> + 1)"
    by (simp only: of_int_le_iff)
  also have "\<dots> \<le> y + 1" by simp
  finally show ?thesis .
qed

lemma round_half_even_nonneg: "0 \<le> y \<Longrightarrow> 0 \<le> round_half_even y"
proof -
  assume "0 \<le> y"
  then have "0 \<le> \<lfloor>y\<rfloor>" by simp
  moreover have "\<lfloor>y\<rfloor> \<le> round_half_even y"
    by (simp add: round_half_even_def Let_def)
  ultimately show ?thesis by linarith
qed

lemma rnd_abs_le:
  assumes "\<bar>x\<bar> \<le> 128"
  shows "\<bar>rnd x\<bar> \<le> 129"
proof (cases "x = 0")
  case True
  then show ?thesis by (simp add: rnd_def)
next
  case False
  define a where "a = \<bar>x\<bar>"
  define e where "e = max (float_exponent a) (- 1022)"
  define u where "u = pow2 (e - 52)"
  have a: "0 < a" "a \<le> 128" using False assms by (simp_all add: a_def)
  have "float_exponent a \<le> 7"
  proof (rule ccontr)
    assume "\<not> float_exponent a \<le> 7"
    then have "pow2 8 \<le> pow2 (float_exponent a)" by (intro pow2_mono) simp
    moreover have "pow2 8 = 256" by (simp add: pow2_def)
    ultimately show False using float_exponent_bounds [OF a(1)] a(2) by simp
  qed
  then have "e - 52 \<le> 0" by (simp add: e_def)
  then have "u \<le> pow2 0" unfolding u_def by (rule pow2_mono)
  then have u1: "u \<le> 1" by (simp add: pow2_def)
  have u0: "0 < u" by (simp add: u_def pow2_pos)
  have r: "rnd x = sgn x * of_int (round_half_even (a / u)) * u"
    using False by (simp add: rnd_def Let_def a_def e_def u_def)
  have "0 \<le> round_half_even (a / u)"
    using a u0 by (intro round_half_even_nonneg) simp
  then have "\<bar>rnd x\<bar> = of_int (round_half_even (a / u)) * u"
    using False u0 by (simp add: r abs_mult abs_sgn_eq)
  also have "\<dots> \<le> (a / u + 1) * u"
    using round_half_even_le [of "a / u"] u0 by (simp add: mult_le_cancel_right)
  also have "\<dots> = a + u" using u0 by (simp add: field_simps)
  also have "\<dots> \<le> 129" using a u1 by simp
  finally show ?thesis .
qed

lemma pow2_1024_gt: "129 < pow2 1024"
proof -
  have "pow2 8 \<le> pow2 1024" by (rule pow2_mono) simp
  moreover have "pow2 8 = 256" by (simp add: pow2_def)
  ultimately show ?thesis by simp
qed

lemma mul_int_float_finite:
  assumes "0 \<le> n" "n \<le> 128" "\<bar>c\<bar> \<le> 1"
  shows "\<exists>r. mul_int_float n (Finite c) = Finite r"
proof -
  have "\<bar>of_int n * c\<bar> \<le> 128"
  proof -
    have "\<bar>of_int n * c\<bar> = of_int n * \<bar>c\<bar>" using assms(1) by (simp add: abs_mult)
    also have "\<dots> \<le> of_int n * 1" using assms by (intro mult_left_mono) simp_all
    also have "\<dots> \<le> 128" using assms(2) by simp
    finally show ?thesis .
  qed
  from rnd_abs_le [OF this] pow2_1024_gt
  have "\<not> pow2 1024 \<le> rnd (of_int n * c)" "\<not> rnd (of_int n * c) \<le> - pow2 1024"
    by linarith+
  then show ?thesis by (simp add: mul_int_float_def Let_def)
qed

lemma round_half_even_error: "\<bar>of_int (round_half_even y) - y\<bar> \<le> 1 / 2"
proof -
  define f where "f = \<lfloor>y\<rfloor>"
  define r where "r = y - of_int f"
  have r: "0 \<le> r" "r < 1" by (simp_all add: r_def f_def) linarith+
  have y: "y = of_int f + r" by (simp add: r_def)
  have "round_half_even y = (if r < 1 / 2 then f else if 1 / 2 < r then f + 1
         else if even f then f else f + 1)"
    by (simp add: round_half_even_def Let_def f_def r_def)
  then consider "round_half_even y = f" "r \<le> 1 / 2" | "round_half_even y = f + 1" "1 / 2 \<le> r"
    by (auto split: if_splits) 
  then show ?thesis
  proof cases
    case 1
    then show ?thesis using r y by simp
  next
    case 2
    then show ?thesis using r y by simp
  qed
qed

lemma rnd_err:
  assumes "\<bar>x\<bar> \<le> 128"
  shows "\<bar>rnd x - x\<bar> \<le> delta"
proof (cases "x = 0")
  case True
  then show ?thesis by (simp add: rnd_def delta_def less_imp_le pow2_pos)
next
  case False
  define a where "a = \<bar>x\<bar>"
  define e where "e = max (float_exponent a) (- 1022)"
  define u where "u = pow2 (e - 52)"
  have a: "0 < a" "a \<le> 128" using False assms by (simp_all add: a_def)
  have "float_exponent a \<le> 7"
  proof (rule ccontr)
    assume "\<not> float_exponent a \<le> 7"
    then have "pow2 8 \<le> pow2 (float_exponent a)" by (intro pow2_mono) simp
    moreover have "pow2 8 = 256" by (simp add: pow2_def)
    ultimately show False using float_exponent_bounds [OF a(1)] a(2) by simp
  qed
  then have "e - 52 \<le> - 45" by (simp add: e_def)
  then have "u \<le> pow2 (- 45)" unfolding u_def by (rule pow2_mono)
  moreover have "pow2 (- 45) = 2 * delta"
    using pow2_add [of 1 "- 46"] by (simp add: delta_def pow2_1)
  ultimately have u1: "u \<le> 2 * delta" by simp
  have u0: "0 < u" by (simp add: u_def pow2_pos)
  have r: "rnd x = sgn x * of_int (round_half_even (a / u)) * u"
    using False by (simp add: rnd_def Let_def a_def e_def u_def)
  have x: "x = sgn x * a" by (simp add: a_def sgn_mult_abs)
  have "rnd x - x = sgn x * ((of_int (round_half_even (a / u)) - a / u) * u)"
    using u0 by (subst (2) x) (simp add: r field_simps)
  then have "\<bar>rnd x - x\<bar> = \<bar>of_int (round_half_even (a / u)) - a / u\<bar> * u"
    using False u0 by (simp add: abs_mult abs_sgn_eq)
  also have "\<dots> \<le> (1 / 2) * u"
    using round_half_even_error [of "a / u"] u0 by (intro mult_right_mono) simp_all
  also have "\<dots> \<le> delta" using u1 by simp
  finally show ?thesis .
qed

lemma rnd_nonneg: "0 \<le> x \<Longrightarrow> 0 \<le> rnd x"
proof (cases "x = 0")
  case True
  then show ?thesis by (simp add: rnd_def)
next
  case False
  assume "0 \<le> x"
  with False have x: "0 < x" by simp
  define u where "u = pow2 (max (float_exponent \<bar>x\<bar>) (- 1022) - 52)"
  have u0: "0 < u" by (simp add: u_def pow2_pos)
  have "0 \<le> round_half_even (\<bar>x\<bar> / u)"
    using u0 by (intro round_half_even_nonneg) simp
  then have "0 \<le> (of_int (round_half_even (\<bar>x\<bar> / u)) :: rat) * u"
    using u0 by simp
  moreover have "rnd x = of_int (round_half_even (\<bar>x\<bar> / u)) * u"
    using x by (simp add: rnd_def Let_def u_def)
  ultimately show ?thesis by simp
qed

lemma delta_val: "delta = 1 / 2 ^ 46"
  by (simp add: delta_def pow2_def)

lemma delta_small: "0 < delta" "delta \<le> 1 / 1000000"
  by (simp_all add: delta_val)

lemma weight_term:
  assumes s: "0 \<le> s" "s \<le> 100" and w: "0 \<le> w" "w \<le> 1 / 2"
  shows "\<bar>fmul_int s (rnd w) - of_int s * w\<bar> \<le> 102 * delta"
    and "\<bar>rnd w - w\<bar> \<le> delta"
    and "of_int s * w \<le> 50"
proof -
  define W where "W = rnd w"
  define x where "x = rnd (of_int s)"
  have sr: "(0::rat) \<le> of_int s" "(of_int s :: rat) \<le> 100" using s by simp_all
  have dw: "\<bar>W - w\<bar> \<le> delta" unfolding W_def using w by (intro rnd_err) simp
  have W0: "0 \<le> W" unfolding W_def using w by (intro rnd_nonneg)
  have W1: "W \<le> 1" using dw w delta_small by linarith
  have dx: "\<bar>x - of_int s\<bar> \<le> delta" unfolding x_def using sr by (intro rnd_err) simp
  have x0: "0 \<le> x" unfolding x_def using sr by (intro rnd_nonneg)
  have sw: "of_int s * w \<le> 100 * (1 / 2)" using sr w by (intro mult_mono) simp_all
  have sw0: "0 \<le> of_int s * w" using sr w by simp
  have e1: "\<bar>(x - of_int s) * W\<bar> \<le> delta * 1"
    unfolding abs_mult using dx W0 W1 by (intro mult_mono) simp_all
  have e2: "\<bar>of_int s * (W - w)\<bar> \<le> 100 * delta"
    unfolding abs_mult using dw sr by (intro mult_mono) simp_all
  have "x * W - of_int s * w = (x - of_int s) * W + of_int s * (W - w)"
    by (simp add: algebra_simps)
  then have p: "\<bar>x * W - of_int s * w\<bar> \<le> 101 * delta"
    using e1 e2 by linarith
  then have "\<bar>x * W\<bar> \<le> 128" using sw sw0 delta_small by linarith
  then have "\<bar>rnd (x * W) - x * W\<bar> \<le> delta" by (rule rnd_err)
  with p have "\<bar>rnd (x * W) - of_int s * w\<bar> \<le> 102 * delta" by linarith
  then show "\<bar>fmul_int s (rnd w) - of_int s * w\<bar> \<le> 102 * delta"
    by (simp add: fmul_int_def W_def x_def)
  show "\<bar>rnd w - w\<bar> \<le> delta" using dw by (simp add: W_def)
  show "of_int s * w \<le> 50" using sw by simp
qed

lemma acc_step:
  assumes "\<bar>ts - S\<bar> \<le> A" "\<bar>tw - T\<bar> \<le> B" "0 \<le> S" "S \<le> 75" "0 \<le> T" "T \<le> 1"
    "A \<le> 1" "B \<le> 1" "0 \<le> s" "s \<le> 100" "0 \<le> w" "w \<le> 1 / 2"
  shows "\<bar>fadd ts (fmul_int s (rnd w)) - (S + of_int s * w)\<bar> \<le> A + 103 * delta"
    and "\<bar>fadd tw (rnd w) - (T + w)\<bar> \<le> B + 2 * delta"
proof -
  note wt = weight_term [OF assms(9-12)]
  have sw0: "(0::rat) \<le> of_int s * w" using assms by simp
  have "\<bar>ts + fmul_int s (rnd w)\<bar> \<le> 128"
    using assms(1,3,4,7) wt(1,3) sw0 delta_small by linarith
  then have "\<bar>rnd (ts + fmul_int s (rnd w)) - (ts + fmul_int s (rnd w))\<bar> \<le> delta"
    by (rule rnd_err)
  then show "\<bar>fadd ts (fmul_int s (rnd w)) - (S + of_int s * w)\<bar> \<le> A + 103 * delta"
    unfolding fadd_def using assms(1) wt(1) by linarith
  have "\<bar>tw + rnd w\<bar> \<le> 128"
    using assms(2,5,6,8,11,12) wt(2) delta_small by linarith
  then have "\<bar>rnd (tw + rnd w) - (tw + rnd w)\<bar> \<le> delta"
    by (rule rnd_err)
  then show "\<bar>fadd tw (rnd w) - (T + w)\<bar> \<le> B + 2 * delta"
    unfolding fadd_def using assms(2) wt(2) by linarith
qed

section \<open>Risk scorer: score, sub-scores, factors, breakdown\<close>

lemma final_score_81: "final_score None (Some 81) None = 80"
  by code_simp

lemma final_score_100: "final_score None (Some 100) None = 100"
  by code_simp

lemma final_score_none: "final_score None None None = 0"
  by (simp add: final_score_def weighted_total_def)

lemma score_high_3low: "score_vulnerabilities report_high_3low = 81"
  by code_simp

lemma score_critical_2low: "score_vulnerabilities report_critical_2low = 100"
  by code_simp

lemma score_anomalies_twice: "score_anomalies anomalies_twice = Inr 42"
  by code_simp

lemma upper_high: "upper ''high'' = ''HIGH''"
  by code_simp

lemma upper_low: "upper ''low'' = ''LOW''"
  by code_simp

lemma calculate_risk_score_no_anomaly:
  "map_sum id score (calculate_risk_score c v None)
     = Inr (final_score (map_option score_compliance c) (map_option score_vulnerabilities v) None)"
  by (simp add: calculate_risk_score_def Let_def)

lemma calculate_risk_score_Inl_iff:
  "calculate_risk_score c v a = Inl e \<longleftrightarrow> (\<exists>r. a = Some r \<and> score_anomalies r = Inl e)"
proof (cases a)
  case None
  then show ?thesis by (simp add: calculate_risk_score_def Let_def)
next
  case (Some r)
  then show ?thesis
    by (cases "score_anomalies r") (simp_all add: calculate_risk_score_def Let_def)
qed

text \<open>
  C1. The code at the failing input: a vulnerability report alone, with one high and
  three low vulnerabilities. Its sub-score is 81, the only category present, so the
  weighted average is 81. The code computes \<open>int(81 * 0.4 / 0.4)\<close> in binary64:
  \<open>81 * 0.4\<close> rounds to \<open>32.4\<close>, the quotient to \<open>80.99999999999999\<close>, and \<open>int\<close>
  truncates it: the score is 80. With no input the score is 0, as the claim says.
  (The lemmas after the theorem bound the divergence: the score is the exact average
  rounded down, or one less.)
\<close>

theorem lone_subscore_81_scores_80:
  "score_vulnerabilities report_high_3low = 81
   \<and> weighted_average None (Some 81) None = 81
   \<and> map_sum id score (calculate_risk_score None (Some report_high_3low) None) = Inr 80
   \<and> map_sum id score (calculate_risk_score None None None) = Inr 0"
proof -
  have "weighted_average None (Some 81) None = 81"
    by (simp add: weighted_average_def exact_total_def)
  then show ?thesis
    by (simp only: calculate_risk_score_no_anomaly option.map score_high_3low final_score_81
        final_score_none simp_thms)
qed

text \<open>
  How far the score can be from the exact weighted average. Every rounding of the
  computation errs by at most \<open>delta\<close>; the errors add up to less than \<open>2^-30\<close> in the
  quotient, while the exact average is a fraction with a denominator of at most 100.
  So, for sub-scores between 0 and 100, the score is the exact average rounded down,
  or one less than that.
\<close>

lemma fadd_nonneg: "0 \<le> x \<Longrightarrow> 0 \<le> y \<Longrightarrow> 0 \<le> fadd x y"
  by (simp add: fadd_def rnd_nonneg)

lemma fmul_int_nonneg: "0 \<le> s \<Longrightarrow> 0 \<le> w \<Longrightarrow> 0 \<le> fmul_int s (rnd w)"
  by (simp add: fmul_int_def rnd_nonneg)

lemma acc_opt:
  assumes "\<bar>ts - S\<bar> \<le> A" "\<bar>tw - T\<bar> \<le> B" "0 \<le> S" "S \<le> 75" "0 \<le> T" "T \<le> 1"
    "A \<le> 1" "B \<le> 1" "in_range so" "0 \<le> w" "w \<le> 1 / 2" "0 \<le> ts" "0 \<le> tw"
  shows "\<bar>(case so of None \<Rightarrow> ts | Some s \<Rightarrow> fadd ts (fmul_int s (rnd w)))
          - (S + (case so of None \<Rightarrow> 0 | Some s \<Rightarrow> of_int s * w))\<bar> \<le> A + 103 * delta"
    and "\<bar>(case so of None \<Rightarrow> tw | Some s \<Rightarrow> fadd tw (rnd w))
          - (T + (case so of None \<Rightarrow> 0 | Some s \<Rightarrow> w))\<bar> \<le> B + 2 * delta"
    and "0 \<le> (case so of None \<Rightarrow> ts | Some s \<Rightarrow> fadd ts (fmul_int s (rnd w)))"
    and "0 \<le> (case so of None \<Rightarrow> tw | Some s \<Rightarrow> fadd tw (rnd w))"
proof -
  show "\<bar>(case so of None \<Rightarrow> ts | Some s \<Rightarrow> fadd ts (fmul_int s (rnd w)))
          - (S + (case so of None \<Rightarrow> 0 | Some s \<Rightarrow> of_int s * w))\<bar> \<le> A + 103 * delta"
  proof (cases so)
    case None
    then show ?thesis using assms(1) delta_small by simp
  next
    case (Some s)
    with assms(9) have "0 \<le> s" "s \<le> 100" by (simp_all add: in_range_def)
    from acc_step(1) [OF assms(1-8) this assms(10,11)] Some show ?thesis by simp
  qed
  show "\<bar>(case so of None \<Rightarrow> tw | Some s \<Rightarrow> fadd tw (rnd w))
          - (T + (case so of None \<Rightarrow> 0 | Some s \<Rightarrow> w))\<bar> \<le> B + 2 * delta"
  proof (cases so)
    case None
    then show ?thesis using assms(2) delta_small by simp
  next
    case (Some s)
    with assms(9) have "0 \<le> s" "s \<le> 100" by (simp_all add: in_range_def)
    from acc_step(2) [OF assms(1-8) this assms(10,11)] Some show ?thesis by simp
  qed
  show "0 \<le> (case so of None \<Rightarrow> ts | Some s \<Rightarrow> fadd ts (fmul_int s (rnd w)))"
    using assms(9,10,12)
    by (cases so) (simp_all add: in_range_def fadd_nonneg fmul_int_nonneg)
  show "0 \<le> (case so of None \<Rightarrow> tw | Some s \<Rightarrow> fadd tw (rnd w))"
    using assms(10,13) by (cases so) (simp_all add: fadd_nonneg rnd_nonneg)
qed

lemma term_bounds:
  fixes w :: rat
  assumes "in_range so" "0 \<le> w"
  shows "0 \<le> (case so of None \<Rightarrow> 0 | Some s \<Rightarrow> of_int s * w)"
    and "(case so of None \<Rightarrow> 0 | Some s \<Rightarrow> of_int s * w)
          \<le> 100 * (case so of None \<Rightarrow> 0 | Some s \<Rightarrow> w)"
proof -
  show "0 \<le> (case so of None \<Rightarrow> 0 | Some s \<Rightarrow> of_int s * w)"
    using assms by (cases so) (simp_all add: in_range_def)
  show "(case so of None \<Rightarrow> 0 | Some s \<Rightarrow> of_int s * w)
          \<le> 100 * (case so of None \<Rightarrow> 0 | Some s \<Rightarrow> w)"
  proof (cases so)
    case None
    then show ?thesis by simp
  next
    case (Some s)
    with assms have "(of_int s :: rat) \<le> 100" by (simp add: in_range_def)
    then have "of_int s * w \<le> 100 * w" using assms(2) by (intro mult_right_mono)
    with Some show ?thesis by simp
  qed
qed

lemma weighted_total_error:
  assumes "in_range c" "in_range v" "in_range a"
  shows "\<bar>fst (weighted_total c v a) - fst (exact_total c v a)\<bar> \<le> 309 * delta"
    and "\<bar>snd (weighted_total c v a) - snd (exact_total c v a)\<bar> \<le> 6 * delta"
    and "0 \<le> fst (weighted_total c v a)"
    and "0 \<le> snd (weighted_total c v a)"
proof -
  define S1 where "S1 = (case c of None \<Rightarrow> 0 | Some s \<Rightarrow> of_int s * (35 / 100 :: rat))"
  define T1 where "T1 = (case c of None \<Rightarrow> 0 | Some s \<Rightarrow> (35 / 100 :: rat))"
  define S2 where "S2 = (case v of None \<Rightarrow> 0 | Some s \<Rightarrow> of_int s * (40 / 100 :: rat))"
  define T2 where "T2 = (case v of None \<Rightarrow> 0 | Some s \<Rightarrow> (40 / 100 :: rat))"
  define S3 where "S3 = (case a of None \<Rightarrow> 0 | Some s \<Rightarrow> of_int s * (25 / 100 :: rat))"
  define T3 where "T3 = (case a of None \<Rightarrow> 0 | Some s \<Rightarrow> (25 / 100 :: rat))"
  define ts1 where "ts1 = (case c of None \<Rightarrow> 0 | Some s \<Rightarrow> fadd 0 (fmul_int s (rnd (35 / 100))))"
  define tw1 where "tw1 = (case c of None \<Rightarrow> 0 | Some s \<Rightarrow> fadd 0 (rnd (35 / 100)))"
  define ts2 where "ts2 = (case v of None \<Rightarrow> ts1 | Some s \<Rightarrow> fadd ts1 (fmul_int s (rnd (40 / 100))))"
  define tw2 where "tw2 = (case v of None \<Rightarrow> tw1 | Some s \<Rightarrow> fadd tw1 (rnd (40 / 100)))"
  define ts3 where "ts3 = (case a of None \<Rightarrow> ts2 | Some s \<Rightarrow> fadd ts2 (fmul_int s (rnd (25 / 100))))"
  define tw3 where "tw3 = (case a of None \<Rightarrow> tw2 | Some s \<Rightarrow> fadd tw2 (rnd (25 / 100)))"
  have wt: "weighted_total c v a = (ts3, tw3)"
    by (simp add: weighted_total_def weight_def WEIGHTS_def ts1_def tw1_def ts2_def tw2_def
        ts3_def tw3_def split: option.splits)
  have ex: "exact_total c v a = (S1 + S2 + S3, T1 + T2 + T3)"
    by (simp add: exact_total_def S1_def S2_def S3_def T1_def T2_def T3_def)
  have b1: "0 \<le> S1" "S1 \<le> 100 * T1" "0 \<le> S2" "S2 \<le> 100 * T2" "0 \<le> S3" "S3 \<le> 100 * T3"
    unfolding S1_def T1_def S2_def T2_def S3_def T3_def
    using term_bounds assms by simp_all
  have t1: "0 \<le> T1" "T1 \<le> 35 / 100" by (simp_all add: T1_def split: option.splits)
  have t2: "0 \<le> T2" "T2 \<le> 40 / 100" by (simp_all add: T2_def split: option.splits)
  have t3: "0 \<le> T3" "T3 \<le> 25 / 100" by (simp_all add: T3_def split: option.splits)
  have d: "0 < delta" "delta \<le> 1 / 1000000" by (rule delta_small)+
  have z: "\<bar>(0::rat) - 0\<bar> \<le> 0" by simp
  note s1 = acc_opt [where ts = 0 and S = 0 and A = 0 and tw = 0 and T = 0 and B = 0
      and so = c and w = "35 / 100", OF z z]
  have i1: "\<bar>ts1 - S1\<bar> \<le> 103 * delta" "\<bar>tw1 - T1\<bar> \<le> 2 * delta" "0 \<le> ts1" "0 \<le> tw1"
    using s1 assms(1) by (simp_all add: ts1_def tw1_def S1_def T1_def)
  note s2 = acc_opt [where ts = ts1 and S = S1 and A = "103 * delta" and tw = tw1 and T = T1
      and B = "2 * delta" and so = v and w = "40 / 100", OF i1(1,2) b1(1)]
  have i2: "\<bar>ts2 - (S1 + S2)\<bar> \<le> 206 * delta" "\<bar>tw2 - (T1 + T2)\<bar> \<le> 4 * delta"
      "0 \<le> ts2" "0 \<le> tw2"
    using s2 assms(2) b1 t1 d i1(3,4) by (simp_all add: ts2_def tw2_def S2_def T2_def)
  have b12: "0 \<le> S1 + S2" "S1 + S2 \<le> 75" "0 \<le> T1 + T2" "T1 + T2 \<le> 1"
    using b1 t1 t2 by simp_all
  note s3 = acc_opt [where ts = ts2 and S = "S1 + S2" and A = "206 * delta" and tw = tw2
      and T = "T1 + T2" and B = "4 * delta" and so = a and w = "25 / 100", OF i2(1,2) b12]
  have i3: "\<bar>ts3 - (S1 + S2 + S3)\<bar> \<le> 309 * delta" "\<bar>tw3 - (T1 + T2 + T3)\<bar> \<le> 6 * delta"
      "0 \<le> ts3" "0 \<le> tw3"
    using s3 assms(3) d i2(3,4) by (simp_all add: ts3_def tw3_def S3_def T3_def)
  show "\<bar>fst (weighted_total c v a) - fst (exact_total c v a)\<bar> \<le> 309 * delta"
    using i3(1) by (simp add: wt ex)
  show "\<bar>snd (weighted_total c v a) - snd (exact_total c v a)\<bar> \<le> 6 * delta"
    using i3(2) by (simp add: wt ex)
  show "0 \<le> fst (weighted_total c v a)" using i3(3) by (simp add: wt)
  show "0 \<le> snd (weighted_total c v a)" using i3(4) by (simp add: wt)
qed

lemma quotient_error:
  assumes "\<bar>TS - S\<bar> \<le> 309 * delta" "\<bar>TW - T\<bar> \<le> 6 * delta" "1 / 4 \<le> T" "T \<le> 1"
    "0 \<le> S" "S \<le> 100 * T" "0 \<le> TS"
  shows "\<bar>fdiv TS TW - S / T\<bar> \<le> 1 / 2 ^ 30" and "0 \<le> fdiv TS TW" and "0 < TW"
proof -
  note d = delta_small
  have TW: "1 / 5 \<le> TW" using assms(2,3) d by linarith
  then show TW0: "0 < TW" by simp
  have T0: "0 < T" using assms(3) by simp
  define E where "E = TS / TW - S / T"
  have "E * (TW * T) = TS * T - S * TW"
    using TW0 T0 by (simp add: E_def field_simps)
  also have "\<dots> = (TS - S) * T - S * (TW - T)" by (simp add: algebra_simps)
  finally have e: "E * (TW * T) = (TS - S) * T - S * (TW - T)" .
  have e1: "\<bar>(TS - S) * T\<bar> \<le> 309 * delta * 1"
    unfolding abs_mult using assms(1,4) T0 by (intro mult_mono) simp_all
  have S100: "S \<le> 100" using assms(4,6) by linarith
  have e2: "\<bar>S * (TW - T)\<bar> \<le> 100 * (6 * delta)"
    unfolding abs_mult using assms(2,5) S100 by (intro mult_mono) simp_all
  have "\<bar>E * (TW * T)\<bar> \<le> 909 * delta" unfolding e using e1 e2 by linarith
  then have "\<bar>E\<bar> * (TW * T) \<le> 909 * delta"
    using TW0 T0 by (simp add: abs_mult)
  moreover have "1 / 20 \<le> TW * T"
  proof -
    have "(1 / 5) * (1 / 4) \<le> TW * T" using TW assms(3) by (intro mult_mono) simp_all
    then show ?thesis by simp
  qed
  then have "\<bar>E\<bar> * (1 / 20) \<le> \<bar>E\<bar> * (TW * T)" by (intro mult_left_mono) simp_all
  ultimately have "\<bar>E\<bar> \<le> 18180 * delta" by linarith
  moreover have "18180 * delta \<le> 1 / 2 ^ 31" by (simp add: delta_val)
  ultimately have E: "\<bar>E\<bar> \<le> 1 / 2 ^ 31" by linarith
  have ST: "0 \<le> S / T" "S / T \<le> 100"
    using assms(5,6) T0 by (simp_all add: divide_le_eq)
  have q: "TS / TW = S / T + E" by (simp add: E_def)
  have small: "(1 / 2 ^ 31 :: rat) \<le> 1" by simp
  have "\<bar>TS / TW\<bar> \<le> 128" unfolding q using E ST small by linarith
  then have "\<bar>rnd (TS / TW) - TS / TW\<bar> \<le> delta" by (rule rnd_err)
  moreover have "delta + 1 / 2 ^ 31 \<le> (1 / 2 ^ 30 :: rat)" by (simp add: delta_val)
  moreover have "rnd (TS / TW) - S / T = (rnd (TS / TW) - TS / TW) + E" by (simp add: E_def)
  ultimately have "\<bar>rnd (TS / TW) - S / T\<bar> \<le> 1 / 2 ^ 30"
    using E by linarith
  then show "\<bar>fdiv TS TW - S / T\<bar> \<le> 1 / 2 ^ 30"
    by (simp only: fdiv_def)
  show "0 \<le> fdiv TS TW"
    unfolding fdiv_def using assms(7) TW0 by (intro rnd_nonneg) simp
qed

lemma floor_near:
  fixes q :: rat and N D :: int
  assumes "0 < D" "D \<le> 100" "\<bar>q - of_int N / of_int D\<bar> \<le> 1 / 2 ^ 30"
  shows "N div D - 1 \<le> \<lfloor>q\<rfloor>" and "\<lfloor>q\<rfloor> \<le> N div D"
proof -
  define r :: rat where "r = of_int N / of_int D"
  have D0: "(0::rat) < of_int D" using assms(1) by simp
  have "N = D * (N div D) + N mod D" by simp
  then have "(of_int N :: rat) = of_int D * of_int (N div D) + of_int (N mod D)"
    by (metis of_int_add of_int_mult)
  then have r: "r = of_int (N div D) + of_int (N mod D) / of_int D"
    using D0 by (simp add: r_def field_simps)
  have m: "0 \<le> N mod D" "N mod D \<le> D - 1" using assms(1) by simp_all
  have lo: "of_int (N div D) \<le> r"
    using m(1) D0 by (simp add: r)
  have "(of_int (N mod D) :: rat) \<le> of_int (D - 1)" using m(2) by (simp only: of_int_le_iff)
  then have "(of_int (N mod D) :: rat) / of_int D \<le> of_int (D - 1) / of_int D"
    using D0 by (simp add: divide_right_mono)
  also have "\<dots> = 1 - 1 / of_int D" using D0 by (simp add: field_simps)
  finally have hi: "r \<le> of_int (N div D) + 1 - 1 / of_int D" by (simp add: r)
  have "(of_int D :: rat) \<le> 100" using assms(2) by simp
  then have "(1 / 100 :: rat) \<le> 1 / of_int D" using D0 by (simp add: field_simps)
  moreover have "(1 / 2 ^ 30 :: rat) < 1 / 100" by simp
  ultimately have g: "(1 / 2 ^ 30 :: rat) < 1 / of_int D" by linarith
  have a3: "\<bar>q - r\<bar> \<le> 1 / 2 ^ 30" using assms(3) by (simp only: r_def)
  have "q < of_int (N div D) + 1" using a3 hi g by linarith
  then have "q < of_int (N div D + 1)" by simp
  then have "\<lfloor>q\<rfloor> < N div D + 1" by (simp only: floor_less_iff)
  then show "\<lfloor>q\<rfloor> \<le> N div D" by simp
  have "(1 / 2 ^ 30 :: rat) \<le> 1" by simp
  then have "of_int (N div D) - 1 \<le> q" using a3 lo by linarith
  then have "of_int (N div D - 1) \<le> q" by simp
  then show "N div D - 1 \<le> \<lfloor>q\<rfloor>" by (simp only: le_floor_iff)
qed

lemma final_score_near_average:
  assumes "in_range c" "in_range v" "in_range a"
  shows "(final_score c v a = \<lfloor>weighted_average c v a\<rfloor>
          \<or> final_score c v a = \<lfloor>weighted_average c v a\<rfloor> - 1)
         \<and> 0 \<le> final_score c v a \<and> final_score c v a \<le> 100"
proof (cases "c = None \<and> v = None \<and> a = None")
  case True
  then show ?thesis
    by (simp add: final_score_none weighted_average_def exact_total_def)
next
  case False
  define N :: int where
    "N = (case c of None \<Rightarrow> 0 | Some s \<Rightarrow> 35 * s) + (case v of None \<Rightarrow> 0 | Some s \<Rightarrow> 40 * s)
       + (case a of None \<Rightarrow> 0 | Some s \<Rightarrow> 25 * s)"
  define D :: int where
    "D = (case c of None \<Rightarrow> 0 | Some s \<Rightarrow> 35) + (case v of None \<Rightarrow> 0 | Some s \<Rightarrow> 40)
       + (case a of None \<Rightarrow> 0 | Some s \<Rightarrow> 25)"
  define S where "S = fst (exact_total c v a)"
  define T where "T = snd (exact_total c v a)"
  define TS where "TS = fst (weighted_total c v a)"
  define TW where "TW = snd (weighted_total c v a)"
  have S: "S = of_int N / 100"
    by (simp add: S_def N_def exact_total_def split: option.splits)
  have T: "T = of_int D / 100"
    by (simp add: T_def D_def exact_total_def split: option.splits)
  have D: "25 \<le> D" "D \<le> 100"
    using False by (auto simp: D_def split: option.splits)
  have N: "0 \<le> N" "N \<le> 100 * D"
    using assms by (auto simp: N_def D_def in_range_def split: option.splits)
  have T4: "1 / 4 \<le> T" "T \<le> 1" using D by (simp_all add: T)
  have S0: "0 \<le> S" using N(1) by (simp add: S)
  have "(of_int N :: rat) \<le> of_int (100 * D)" using N(2) by (simp only: of_int_le_iff)
  then have S100: "S \<le> 100 * T" by (simp add: S T)
  note wt = weighted_total_error [OF assms, folded S_def T_def TS_def TW_def]
  note qe = quotient_error [OF wt(1,2) T4 S0 S100 wt(3)]
  have ST: "S / T = of_int N / of_int D" using D by (simp add: S T)
  have avg: "weighted_average c v a = of_int N / of_int D"
    using T4 ST by (simp add: weighted_average_def split_def S_def [symmetric] T_def [symmetric])
  have fl: "\<lfloor>weighted_average c v a\<rfloor> = N div D"
    by (simp add: avg floor_divide_of_int_eq)
  have D0: "0 < D" using D by simp
  note fn = floor_near [OF D0 D(2) qe(1) [unfolded ST]]
  have q0: "0 \<le> \<lfloor>fdiv TS TW\<rfloor>" using qe(2) by simp
  have "N div D \<le> 100"
  proof -
    have "N div D \<le> (100 * D) div D" using N(2) by (rule zdiv_mono1) (use D0 in simp)
    then show ?thesis using D0 by simp
  qed
  with fn(2) have q100: "\<lfloor>fdiv TS TW\<rfloor> \<le> 100" by linarith
  have "final_score c v a = max 0 (min 100 (trunc (fdiv TS TW)))"
    using qe(3) by (simp add: final_score_def split_def Let_def TS_def TW_def)
  also have "trunc (fdiv TS TW) = \<lfloor>fdiv TS TW\<rfloor>"
    using qe(2) by (simp add: trunc_def)
  finally have "final_score c v a = \<lfloor>fdiv TS TW\<rfloor>"
    using q0 q100 by simp
  then show ?thesis using fn q0 q100 by (simp add: fl) linarith
qed

text \<open>
  The sub-scores lie between 0 and 100, so the bound holds for every score the scorer
  returns, against the exact weighted average of the sub-scores in its breakdown.
\<close>

lemma foldl_max_ge: "(a::int) \<le> foldl (\<lambda>m x. max m (f x)) a xs"
proof (induction xs arbitrary: a)
  case Nil
  then show ?case by simp
next
  case (Cons x xs)
  have "a \<le> max a (f x)" by simp
  also have "\<dots> \<le> foldl (\<lambda>m x. max m (f x)) (max a (f x)) xs" by (rule Cons.IH)
  finally show ?case by simp
qed

lemma score_compliance_range: "in_range (Some (score_compliance r))"
proof -
  have "0 \<le> foldl (\<lambda>m violation. max m (severity_score (severity_value (v_severity violation))))
          0 (violations r)"
    by (rule foldl_max_ge)
  then show ?thesis
    by (simp add: in_range_def score_compliance_def Let_def)
qed

lemma score_vulnerabilities_range: "in_range (Some (score_vulnerabilities r))"
proof -
  have "0 \<le> foldl (\<lambda>m vuln. max m (severity_score (vuln_severity_value vuln)))
          0 (vulnerabilities r)"
    by (rule foldl_max_ge)
  then show ?thesis
    by (simp add: in_range_def score_vulnerabilities_def Let_def)
qed

lemma anomaly_max_severity_ge: "anomaly_max_severity m fs = Inr s \<Longrightarrow> m \<le> s"
proof (induction fs arbitrary: m)
  case Nil
  then show ?case by simp
next
  case (Cons f fs)
  then show ?case
    by (cases "int_of_float (mul_int_float (severity_score (f_severity f)) (confidence f))")
      (auto dest!: Cons.IH)
qed

lemma score_anomalies_range: "score_anomalies r = Inr s \<Longrightarrow> in_range (Some s)"
proof -
  assume a: "score_anomalies r = Inr s"
  show ?thesis
  proof (cases "findings r = []")
    case True
    with a show ?thesis by (simp add: score_anomalies_def in_range_def)
  next
    case False
    show ?thesis
    proof (cases "anomaly_max_severity 0 (findings r)")
      case (Inl e)
      with a False show ?thesis by (simp add: score_anomalies_def)
    next
      case (Inr m)
      from anomaly_max_severity_ge [OF this] have "0 \<le> m" .
      with a False Inr show ?thesis
        by (auto simp: score_anomalies_def Let_def in_range_def)
    qed
  qed
qed

lemma calculate_risk_score_fields:
  assumes "calculate_risk_score c v a = Inr rs"
  shows "\<exists>s. (case a of None \<Rightarrow> s = None | Some r \<Rightarrow> \<exists>n. score_anomalies r = Inr n \<and> s = Some n)
           \<and> score rs = final_score (map_option score_compliance c)
                 (map_option score_vulnerabilities v) s
           \<and> breakdown rs ''compliance'' = map_option score_compliance c
           \<and> breakdown rs ''vulnerability'' = map_option score_vulnerabilities v
           \<and> breakdown rs ''anomaly'' = s"
proof (cases a)
  case None
  have "score rs = final_score (map_option score_compliance c)
               (map_option score_vulnerabilities v) None
    \<and> breakdown rs ''compliance'' = map_option score_compliance c
    \<and> breakdown rs ''vulnerability'' = map_option score_vulnerabilities v
    \<and> breakdown rs ''anomaly'' = None"
    using assms unfolding None calculate_risk_score_def Let_def
    by (cases rs) simp
  then show ?thesis using None by (intro exI [of _ None]) simp
next
  case (Some r)
  show ?thesis
  proof (cases "score_anomalies r")
    case (Inl e)
    with Some assms show ?thesis by (simp add: calculate_risk_score_def Let_def)
  next
    case (Inr n)
    have "score rs = final_score (map_option score_compliance c)
                 (map_option score_vulnerabilities v) (Some n)
      \<and> breakdown rs ''compliance'' = map_option score_compliance c
      \<and> breakdown rs ''vulnerability'' = map_option score_vulnerabilities v
      \<and> breakdown rs ''anomaly'' = Some n"
      using assms unfolding Some calculate_risk_score_def Let_def
      by (cases rs) (simp add: Inr)
    then show ?thesis using Some Inr by (intro exI [of _ "Some n"]) simp
  qed
qed

lemma calculate_risk_score_near_average:
  assumes "calculate_risk_score c v a = Inr rs"
  shows "(score rs = \<lfloor>weighted_average (breakdown rs ''compliance'')
                       (breakdown rs ''vulnerability'') (breakdown rs ''anomaly'')\<rfloor>
          \<or> score rs = \<lfloor>weighted_average (breakdown rs ''compliance'')
                       (breakdown rs ''vulnerability'') (breakdown rs ''anomaly'')\<rfloor> - 1)
         \<and> 0 \<le> score rs \<and> score rs \<le> 100"
proof -
  have rc: "in_range (map_option score_compliance c)"
    using score_compliance_range by (cases c) (simp_all add: in_range_def)
  have rv: "in_range (map_option score_vulnerabilities v)"
    using score_vulnerabilities_range by (cases v) (simp_all add: in_range_def)
  from calculate_risk_score_fields [OF assms] obtain s where
    s: "case a of None \<Rightarrow> s = None | Some r \<Rightarrow> \<exists>n. score_anomalies r = Inr n \<and> s = Some n"
    and f: "score rs = final_score (map_option score_compliance c)
                 (map_option score_vulnerabilities v) s"
      "breakdown rs ''compliance'' = map_option score_compliance c"
      "breakdown rs ''vulnerability'' = map_option score_vulnerabilities v"
      "breakdown rs ''anomaly'' = s"
    by blast
  have ra: "in_range s"
  proof (cases a)
    case None
    with s show ?thesis by (simp add: in_range_def)
  next
    case (Some r)
    with s obtain n where "score_anomalies r = Inr n" "s = Some n" by auto
    then show ?thesis using score_anomalies_range by simp
  qed
  from final_score_near_average [OF rc rv ra] show ?thesis
    by (simp only: f)
qed

lemma foldl_max_Max:
  fixes f :: "'a \<Rightarrow> int"
  shows "foldl (\<lambda>m x. max m (f x)) a xs = Max (insert a (f ` set xs))"
proof (induction xs arbitrary: a)
  case Nil
  then show ?case by simp
next
  case (Cons x xs)
  have "Max (insert (max a (f x)) (f ` set xs)) = Max (insert a (insert (f x) (f ` set xs)))"
  proof (cases "a \<le> f x")
    case True
    have "Max (insert a (insert (f x) (f ` set xs))) = max a (Max (insert (f x) (f ` set xs)))"
      by (rule Max_insert) auto
    also have "\<dots> = Max (insert (f x) (f ` set xs))"
      using True by (simp add: max_absorb2 Max_ge_iff)
    finally show ?thesis using True by (simp add: max_absorb2)
  next
    case False
    then have "max a (f x) = a" by simp
    moreover have "Max (insert a (insert (f x) (f ` set xs)))
        = Max (insert (f x) (insert a (f ` set xs)))"
      by (simp add: insert_commute)
    moreover have "Max (insert (f x) (insert a (f ` set xs)))
        = max (f x) (Max (insert a (f ` set xs)))"
      by (rule Max_insert) auto
    moreover have "f x \<le> Max (insert a (f ` set xs))"
      using False by (simp add: Max_ge_iff)
    ultimately show ?thesis by (simp add: max_absorb2)
  qed
  with Cons show ?case by simp
qed

lemma severity_score_nonneg: "0 \<le> severity_score k"
  by (simp add: severity_score_def SEVERITY_SCORES_def)

lemma max_severity_Max:
  assumes "xs \<noteq> []"
  shows "foldl (\<lambda>m x. max m (severity_score (g x))) 0 xs
       = Max ((\<lambda>x. severity_score (g x)) ` set xs)"
proof -
  have ne: "(\<lambda>x. severity_score (g x)) ` set xs \<noteq> {}" using assms by simp
  have "Max (insert 0 ((\<lambda>x. severity_score (g x)) ` set xs))
      = max 0 (Max ((\<lambda>x. severity_score (g x)) ` set xs))"
    by (rule Max_insert) (use ne in auto)
  moreover have "0 \<le> Max ((\<lambda>x. severity_score (g x)) ` set xs)"
  proof -
    obtain x where "x \<in> set xs" using assms by (cases xs) auto
    then have "severity_score (g x) \<le> Max ((\<lambda>x. severity_score (g x)) ` set xs)"
      by (intro Max_ge) auto
    with severity_score_nonneg [of "g x"] show ?thesis by linarith
  qed
  ultimately show ?thesis by (simp add: foldl_max_Max)
qed

text \<open>
  C6. A vulnerability report alone, with one critical and two low vulnerabilities, has
  the sub-score 100, and the risk score is 100 with level critical. In general the
  sub-score is 0 for a report without vulnerabilities and otherwise the least of 100
  and the highest severity score among the vulnerabilities plus the least of 30 and
  \<open>15 * critical + 10 * high + 5 * medium + 2 * low\<close>.
\<close>

theorem vulnerability_subscore_formula:
  "score_vulnerabilities report_critical_2low = 100
   \<and> map_sum id (\<lambda>rs. (score rs, level rs))
        (calculate_risk_score None (Some report_critical_2low) None)
       = Inr (100, RISK_CRITICAL)
   \<and> score_vulnerabilities r =
       (if vulnerabilities r = [] then 0
        else min 100
               (Max ((\<lambda>x. severity_score (vuln_severity_value x)) ` set (vulnerabilities r))
                + min (15 * int (critical_count r) + 10 * int (high_count r)
                       + 5 * int (medium_count r) + 2 * int (low_count r)) 30))"
proof (intro conjI)
  show "score_vulnerabilities report_critical_2low = 100"
    by (rule score_critical_2low)
  show "map_sum id (\<lambda>rs. (score rs, level rs))
        (calculate_risk_score None (Some report_critical_2low) None)
       = Inr (100, RISK_CRITICAL)"
    by (simp add: calculate_risk_score_def Let_def score_critical_2low final_score_100
        score_to_level_def)
  show "score_vulnerabilities r =
       (if vulnerabilities r = [] then 0
        else min 100
               (Max ((\<lambda>x. severity_score (vuln_severity_value x)) ` set (vulnerabilities r))
                + min (15 * int (critical_count r) + 10 * int (high_count r)
                       + 5 * int (medium_count r) + 2 * int (low_count r)) 30))"
    by (simp add: score_vulnerabilities_def Let_def max_severity_Max mult.commute)
qed

text \<open>
  The scorer returns whenever every confidence is a finite float of magnitude at most 1
  (the anomaly detector documents confidences between 0 and 1): the products with the
  severity scores stay finite.
\<close>

lemma severity_score_range: "0 \<le> severity_score k \<and> severity_score k \<le> 128"
  by (simp add: severity_score_def SEVERITY_SCORES_def)

lemma anomaly_max_severity_returns:
  assumes "\<forall>f \<in> set fs. \<exists>c. confidence f = Finite c \<and> \<bar>c\<bar> \<le> 1"
  shows "\<exists>s. anomaly_max_severity m fs = Inr s"
  using assms
proof (induction fs arbitrary: m)
  case Nil
  then show ?case by simp
next
  case (Cons f fs)
  then obtain c where c: "confidence f = Finite c" "\<bar>c\<bar> \<le> 1" by auto
  from mul_int_float_finite [of "severity_score (f_severity f)" c] severity_score_range c(2)
  obtain r where "mul_int_float (severity_score (f_severity f)) (Finite c) = Finite r"
    by blast
  then have "int_of_float (mul_int_float (severity_score (f_severity f)) (confidence f))
      = Inr (trunc r)"
    by (simp add: c int_of_float_def)
  moreover from Cons have "\<exists>s. anomaly_max_severity (max m (trunc r)) fs = Inr s" by simp
  ultimately show ?case by simp
qed

lemma calculate_risk_score_returns:
  assumes "\<forall>r f. a = Some r \<longrightarrow> f \<in> set (findings r)
             \<longrightarrow> (\<exists>c. confidence f = Finite c \<and> \<bar>c\<bar> \<le> 1)"
  shows "\<exists>rs. calculate_risk_score c v a = Inr rs"
proof (cases a)
  case None
  then show ?thesis by (simp add: calculate_risk_score_def Let_def)
next
  case (Some r)
  with assms have "\<forall>f \<in> set (findings r). \<exists>c. confidence f = Finite c \<and> \<bar>c\<bar> \<le> 1"
    by simp
  from anomaly_max_severity_returns [OF this, of 0]
  obtain s where "anomaly_max_severity 0 (findings r) = Inr s" by blast
  then have "\<exists>s'. score_anomalies r = Inr s'"
    by (simp add: score_anomalies_def Let_def)
  then obtain s' where "score_anomalies r = Inr s'" by blast
  with Some show ?thesis by (simp add: calculate_risk_score_def Let_def)
qed

text \<open>
  C7, as stated, fails twice on one input: the factors are not deduplicated, and the
  line of a compliance violation is \<open>Policy violation: <message>\<close>, without the
  severity.
\<close>

theorem factors_keep_duplicates:
  "map_sum id factors (calculate_risk_score (Some compliance_two) None (Some anomalies_twice))
     = Inr [''Policy violation: Sender 0xdead is blocked'',
            ''Policy violation: Sender 0xdead is blocked'',
            ''HIGH: Large transfer'', ''HIGH: Large transfer'']"
  by (simp add: calculate_risk_score_def Let_def score_anomalies_twice compliance_factors_def
      vulnerability_factors_def anomaly_factors_def)
    (simp_all add: compliance_two_def blocked_violation_def anomalies_twice_def finding_def
      upper_high)

text \<open>
  C7, amended. The scorer raises only when the anomaly sub-score does. Otherwise the
  factors are the first 10 lines, duplicates kept, of: one line
  \<open>Policy violation: <message>\<close> per compliance violation, then one line
  \<open><SEVERITY>: <title>\<close> per vulnerability, then one per anomaly finding, each list
  in its own order, the severity in upper case.
\<close>

theorem factors_first_ten_in_source_order:
  "(case calculate_risk_score c v a of
      Inl e \<Rightarrow> (\<exists>r. a = Some r \<and> score_anomalies r = Inl e)
    | Inr rs \<Rightarrow>
        factors rs =
          take 10
            (map (\<lambda>x. ''Policy violation: '' @ message x)
                 (case c of None \<Rightarrow> [] | Some cr \<Rightarrow> violations cr)
             @ map (\<lambda>x. upper (vuln_severity_value x) @ '': '' @ vuln_title x)
                 (case v of None \<Rightarrow> [] | Some r \<Rightarrow> vulnerabilities r)
             @ map (\<lambda>f. upper (f_severity f) @ '': '' @ f_title f)
                 (case a of None \<Rightarrow> [] | Some r \<Rightarrow> findings r)))"
proof (cases "calculate_risk_score c v a")
  case (Inl e)
  then have "\<exists>r. a = Some r \<and> score_anomalies r = Inl e"
    by (simp add: calculate_risk_score_Inl_iff)
  with Inl show ?thesis by simp
next
  case result: (Inr rs)
  show ?thesis
  proof (cases a)
    case None
    with result show ?thesis
      by (auto simp: calculate_risk_score_def Let_def compliance_factors_def
          vulnerability_factors_def anomaly_factors_def split: option.splits)
  next
    case (Some r)
    show ?thesis
    proof (cases "score_anomalies r")
      case (Inl e)
      with Some result show ?thesis
        by (simp add: calculate_risk_score_def Let_def)
    next
      case (Inr s)
      with Some result show ?thesis
        by (auto simp: calculate_risk_score_def Let_def compliance_factors_def
            vulnerability_factors_def anomaly_factors_def split: option.splits)
    qed
  qed
qed

theorem factors_first_ten_in_source_order_witness:
  "map_sum id factors
     (calculate_risk_score (Some compliance_two) (Some report_high_3low) (Some anomalies_twice))
   = Inr [''Policy violation: Sender 0xdead is blocked'',
          ''Policy violation: Sender 0xdead is blocked'',
          ''HIGH: Missing signer check'', ''LOW: Unused variable'', ''LOW: Magic number'',
          ''LOW: Missing event'', ''HIGH: Large transfer'', ''HIGH: Large transfer'']"
proof -
  obtain rs where rs: "calculate_risk_score (Some compliance_two) (Some report_high_3low)
      (Some anomalies_twice) = Inr rs"
    by (cases "calculate_risk_score (Some compliance_two) (Some report_high_3low)
          (Some anomalies_twice)")
      (auto simp: calculate_risk_score_Inl_iff score_anomalies_twice)
  from factors_first_ten_in_source_order
    [where c = "Some compliance_two" and v = "Some report_high_3low"
       and a = "Some anomalies_twice"]
  have "factors rs =
      take 10
        (map (\<lambda>x. ''Policy violation: '' @ message x) (violations compliance_two)
         @ map (\<lambda>x. upper (vuln_severity_value x) @ '': '' @ vuln_title x)
             (vulnerabilities report_high_3low)
         @ map (\<lambda>f. upper (f_severity f) @ '': '' @ f_title f) (findings anomalies_twice))"
    by (simp add: rs)
  then have "factors rs =
      [''Policy violation: Sender 0xdead is blocked'',
       ''Policy violation: Sender 0xdead is blocked'',
       ''HIGH: Missing signer check'', ''LOW: Unused variable'', ''LOW: Magic number'',
       ''LOW: Missing event'', ''HIGH: Large transfer'', ''HIGH: Large transfer'']"
    by (simp add: compliance_two_def blocked_violation_def report_high_3low_def vuln_def
        anomalies_twice_def finding_def upper_high upper_low)
  then show ?thesis
    by (simp add: rs)
qed

text \<open>
  C10. The scorer raises only when the anomaly sub-score does. Otherwise the breakdown
  has the key \<open>compliance\<close>, \<open>vulnerability\<close> or \<open>anomaly\<close> exactly when the
  corresponding argument is present, mapped to that category's sub-score, and no other
  key. A compliance result without violations gives the entry \<open>compliance = 0\<close>.
\<close>

theorem breakdown_has_present_categories:
  "(case calculate_risk_score c v a of
      Inl e \<Rightarrow> (\<exists>r. a = Some r \<and> score_anomalies r = Inl e)
    | Inr rs \<Rightarrow>
        breakdown rs ''compliance'' = map_option score_compliance c
        \<and> breakdown rs ''vulnerability'' = map_option score_vulnerabilities v
        \<and> map_option Inr (breakdown rs ''anomaly'') = map_option score_anomalies a
        \<and> dom (breakdown rs) \<subseteq> {''compliance'', ''vulnerability'', ''anomaly''})
   \<and> (violations cr = [] \<longrightarrow>
        map_sum id (\<lambda>rs. breakdown rs ''compliance'') (calculate_risk_score (Some cr) v None)
          = Inr (Some 0))"
proof (intro conjI impI)
  show "case calculate_risk_score c v a of
      Inl e \<Rightarrow> (\<exists>r. a = Some r \<and> score_anomalies r = Inl e)
    | Inr rs \<Rightarrow>
        breakdown rs ''compliance'' = map_option score_compliance c
        \<and> breakdown rs ''vulnerability'' = map_option score_vulnerabilities v
        \<and> map_option Inr (breakdown rs ''anomaly'') = map_option score_anomalies a
        \<and> dom (breakdown rs) \<subseteq> {''compliance'', ''vulnerability'', ''anomaly''}"
  proof (cases "calculate_risk_score c v a")
    case (Inl e)
    then have "\<exists>r. a = Some r \<and> score_anomalies r = Inl e"
      by (simp add: calculate_risk_score_Inl_iff)
    with Inl show ?thesis by simp
  next
    case result: (Inr rs)
    show ?thesis
    proof (cases a)
      case None
      with result show ?thesis
        by (auto simp: calculate_risk_score_def Let_def dom_def split: if_splits)
    next
      case (Some r)
      show ?thesis
      proof (cases "score_anomalies r")
        case (Inl e)
        with Some result show ?thesis
          by (simp add: calculate_risk_score_def Let_def)
      next
        case (Inr s)
        with Some result show ?thesis
          by (auto simp: calculate_risk_score_def Let_def dom_def split: if_splits)
      qed
    qed
  qed
next
  assume "violations cr = []"
  then show "map_sum id (\<lambda>rs. breakdown rs ''compliance'') (calculate_risk_score (Some cr) v None)
          = Inr (Some 0)"
    by (simp add: calculate_risk_score_def Let_def score_compliance_def)
qed

theorem breakdown_has_present_categories_witness:
  "map_sum id (\<lambda>rs. (breakdown rs ''compliance'', breakdown rs ''vulnerability'',
                      breakdown rs ''anomaly''))
     (calculate_risk_score (Some compliance_clean) None (Some anomalies_twice))
   = Inr (Some 0, None, Some 42)
   \<and> map_sum id (\<lambda>rs. breakdown rs ''compliance'')
       (calculate_risk_score (Some compliance_clean) (Some report_high_3low) None)
     = Inr (Some 0)"
proof -
  obtain rs where rs: "calculate_risk_score (Some compliance_clean) None (Some anomalies_twice)
      = Inr rs"
    by (cases "calculate_risk_score (Some compliance_clean) None (Some anomalies_twice)")
      (auto simp: calculate_risk_score_Inl_iff score_anomalies_twice)
  from breakdown_has_present_categories
    [where c = "Some compliance_clean" and v = None and a = "Some anomalies_twice"
       and cr = compliance_clean]
  have a: "breakdown rs ''compliance'' = Some (score_compliance compliance_clean)
      \<and> breakdown rs ''vulnerability'' = None
      \<and> map_option Inr (breakdown rs ''anomaly'') = Some (score_anomalies anomalies_twice)"
    by (simp add: rs)
  from breakdown_has_present_categories
    [where c = None and v = "Some report_high_3low" and a = None and cr = compliance_clean]
  have b: "map_sum id (\<lambda>rs. breakdown rs ''compliance'')
       (calculate_risk_score (Some compliance_clean) (Some report_high_3low) None)
     = Inr (Some 0)"
    by (simp add: compliance_clean_def)
  from a have "breakdown rs ''compliance'' = Some 0" "breakdown rs ''vulnerability'' = None"
      "breakdown rs ''anomaly'' = Some 42"
    by (auto simp: score_anomalies_twice score_compliance_def compliance_clean_def)
  with b show ?thesis
    by (simp add: rs)
qed

end
